theory Spec2Isabelle
  imports Complex_Main "HOL-Library.Char_ord" "HOL-Library.List_Lexorder" "HOL-Library.AList"
begin

section \<open>Strings\<close>

text \<open>
  A JavaScript string is modelled as a \<^typ>\<open>string\<close>, one \<^typ>\<open>char\<close> per code unit
  (code units below 256). The helpers below are the String methods the program calls.
\<close>

definition isWhiteSpace :: "char \<Rightarrow> bool" where
  \<comment> \<open>the characters \<open>String.prototype.trim\<close> strips: TAB, LF, VT, FF, CR, SP, NBSP\<close>
  "isWhiteSpace c \<longleftrightarrow>
     c = CHR 0x09 \<or> c = CHR 0x0A \<or> c = CHR 0x0B \<or> c = CHR 0x0C \<or> c = CHR 0x0D \<or>
     c = CHR 0x20 \<or> c = CHR 0xA0"

definition trim :: "string \<Rightarrow> string" where
  "trim s = rev (dropWhile isWhiteSpace (rev (dropWhile isWhiteSpace s)))"

definition toLowerChar :: "char \<Rightarrow> char" where
  "toLowerChar c =
     (let n = (of_char c :: nat)
      in if (65 \<le> n \<and> n \<le> 90) \<or> (192 \<le> n \<and> n \<le> 222 \<and> n \<noteq> 215)
         then char_of (n + 32) else c)"

definition toLowerCase :: "string \<Rightarrow> string" where
  "toLowerCase s = map toLowerChar s"

fun join :: "string \<Rightarrow> string list \<Rightarrow> string" where
  \<comment> \<open>\<open>xs.join(sep)\<close>\<close>
  "join sep [] = []"
| "join sep [x] = x"
| "join sep (x # y # ys) = x @ sep @ join sep (y # ys)"

fun consFirst :: "char \<Rightarrow> string list \<Rightarrow> string list" where
  "consFirst c [] = [[c]]"
| "consFirst c (l # ls) = (c # l) # ls"

fun splitOn :: "char \<Rightarrow> string \<Rightarrow> string list" where
  \<comment> \<open>\<open>s.split(sep)\<close> for a one-character separator\<close>
  "splitOn sep [] = [[]]"
| "splitOn sep (c # cs) = (if c = sep then [] # splitOn sep cs else consFirst c (splitOn sep cs))"

fun splitLines :: "string \<Rightarrow> string list" where
  \<comment> \<open>\<open>s.split(/\r\n?|\n/)\<close>\<close>
  "splitLines [] = [[]]"
| "splitLines [c] = (if c = CHR 0x0D \<or> c = CHR 0x0A then [[], []] else [[c]])"
| "splitLines (c # d # cs) =
     (if c = CHR 0x0D \<and> d = CHR 0x0A then [] # splitLines cs
      else if c = CHR 0x0D \<or> c = CHR 0x0A then [] # splitLines (d # cs)
      else consFirst c (splitLines (d # cs)))"

section \<open>Data model\<close>

record Theme =
  name :: string
  description :: string

text \<open>
  A row object \<open>{ [key: string]: string }\<close> is a finite map from its own property names
  (the column names) to values. What the object inherits from \<open>Object.prototype\<close> is written
  out where the program writes or reads a property by a name taken from the data
  (\<open>setProperty\<close>, \<open>cellText\<close>).
\<close>

type_synonym row = "string \<rightharpoonup> string"

datatype error = Error string

text \<open>
  A value decoded by \<open>JSON.parse\<close>; an object is the list of its own properties, each name
  once. A \<open>jsval\<close> is what reading a property gives: such a value, or \<open>undefined\<close> (\<open>None\<close>).
\<close>

datatype json =
  JNull
| JBool bool
| JNumber real
| JString string
| JArray "json list"
| JObject "(string \<times> json) list"

type_synonym jsval = "json option"

text \<open>
  A result record as \<open>runAnalysis\<close> builds it at run time: the fields copied from a
  record of the reply hold whatever the reply holds there.
\<close>

record RawResult =
  themeName :: jsval
  sentiment :: jsval
  confidenceScore :: jsval
  reasoning :: jsval
  responseColumn :: string
  suggestedTheme :: jsval
  rawData :: "row option"

text \<open>
  A record of the reply that has the shape of the response schema: the required fields
  are there with their types, and a suggested theme is an object with two strings.
\<close>

record AnalysisResult =
  originalResponse :: string
  themeName :: string
  sentiment :: string
  confidenceScore :: real
  reasoning :: string
  suggestedTheme :: "Theme option"

text \<open>
  \<open>CodingResult\<close>. At run time \<open>rawData\<close> can be \<open>undefined\<close> (see \<open>runAnalysis\<close>), hence
  the option; \<open>sentiment\<close> holds whatever string the service returned; \<open>confidenceScore\<close> is
  only carried along.
\<close>

record CodingResult =
  themeName :: string
  sentiment :: string
  confidenceScore :: real
  reasoning :: string
  responseColumn :: string
  suggestedTheme :: "Theme option"
  rawData :: "row option"

record SuggestedThemeWithStatus = CodingResult +
  isApproved :: bool
  editedName :: string
  editedDescription :: string

datatype Mode = Replace | Append

datatype Role = User | Model

record ChatMessage =
  role :: Role
  text_of :: string

type_synonym Codebooks = "(string \<times> Theme list) list"

text \<open>
  The outcome of the awaited service call and of decoding its text: the call is rejected,
  or \<open>JSON.parse\<close> (or reading \<open>parsedResponse.results\<close>) throws, or the records are there.
\<close>

datatype ApiOutcome =
  CallFailed string
| DecodeFailed string
| Decoded "AnalysisResult list"

text \<open>
  What the awaited call gives: the call is rejected, or the text of the response is not
  JSON (\<open>JSON.parse\<close> throws), or it is the text of a JSON value.
\<close>

datatype Reply =
  Rejected string
| NotJson string
| Json json

text \<open>
  The React state of \<open>App\<close> (\<open>apiKey\<close> to \<open>chatHistory\<close>), of \<open>CodebookPage\<close>
  (\<open>codebookError\<close> is its \<open>error\<close>) and of \<open>AnalysisPage\<close> (from \<open>isLoading\<close> on).
  The empty string is the falsy string: no active codebook, no response column.
  The type \<open>'r\<close> is the type of the result records the state holds: \<open>CodingResult\<close>
  for results as their TypeScript type describes them, \<open>RawResult\<close> for results as the
  reply of the service makes them.
\<close>

record 'r state =
  apiKey :: "string option"
  codebooks :: Codebooks
  activeCodebook :: string
  results :: "'r list"
  reportContent :: string
  chatHistory :: "ChatMessage list"
  codebookError :: "string option"
  isLoading :: bool
  error :: "string option"
  uploadedData :: "row list"
  dataHeaders :: "string list"
  responseColumn :: string
  isSuggestionModalOpen :: bool
  suggestedThemes :: "'r list"
  pendingResults :: "'r list"
  analysisMode :: "Mode option"

section \<open>Tabular parser (\<open>parseCsv\<close> in \<open>handleResponseFileUpload\<close>)\<close>

text \<open>
  The scanner of \<open>parseLine\<close>: the \<open>for\<close> loop over the characters of the line, with the
  loop variables \<open>result\<close>, \<open>field\<close> and \<open>inQuotes\<close>; the first argument is the part of the
  line from index \<open>i\<close> on. After the loop the last field is pushed.
\<close>

fun parseLine_loop :: "string \<Rightarrow> string list \<Rightarrow> string \<Rightarrow> bool \<Rightarrow> string list" where
  "parseLine_loop [] result field inQuotes = result @ [field]"
| "parseLine_loop (char # rest) result field inQuotes =
     (if inQuotes then
        (if char = CHR 0x22 then
           (if rest \<noteq> [] \<and> hd rest = CHR 0x22
            then parseLine_loop (tl rest) result (field @ [CHR 0x22]) inQuotes
            else parseLine_loop rest result field False)
         else parseLine_loop rest result (field @ [char]) inQuotes)
      else
        (if char = CHR '','' then parseLine_loop rest (result @ [field]) [] inQuotes
         else if char = CHR 0x22 then parseLine_loop rest result field True
         else parseLine_loop rest result (field @ [char]) inQuotes))"

definition parseLine :: "string \<Rightarrow> string list" where
  "parseLine line = parseLine_loop line [] [] False"

definition valueAt :: "string list \<Rightarrow> nat \<Rightarrow> string" where
  \<comment> \<open>\<open>values[index] || ''\<close>: an index out of range reads \<open>undefined\<close>, which is falsy\<close>
  "valueAt values index =
     (if index < length values \<and> values ! index \<noteq> [] then values ! index else [])"

definition setProperty :: "row \<Rightarrow> string \<Rightarrow> string \<Rightarrow> row" where
  \<comment> \<open>\<open>row[key] = value\<close> on a plain object, for a string value: the name \<open>__proto__\<close> is the
      accessor of \<open>Object.prototype\<close>, whose setter ignores a string and creates no property\<close>
  "setProperty row key v = (if key = ''__proto__'' then row else row(key \<mapsto> v))"

definition makeRow :: "string list \<Rightarrow> string list \<Rightarrow> row" where
  \<comment> \<open>\<open>headers.forEach((header, index) => { row[header] = values[index] || ''; })\<close>\<close>
  "makeRow headers values =
     fold (\<lambda>(header, index) row. setProperty row header (valueAt values index))
       (zip headers [0..<length headers]) Map.empty"

definition parseCsv :: "string \<Rightarrow> error + (string list \<times> row list)" where
  "parseCsv csvText =
     (let lines = splitLines (trim csvText)
      in if length lines < 2
         then Inl (Error ''CSV must have a header row and at least one data row.'')
         else
           let headers = parseLine (hd lines);
               data = List.map_filter
                        (\<lambda>line. if trim line = [] then None
                                else Some (makeRow headers (parseLine line)))
                        (tl lines)
           in Inr (headers, data))"

section \<open>Row codec (\<open>escapeCsvField\<close> and \<open>csvContent\<close> in \<open>handleDownloadCSV\<close>)\<close>

definition escapeCsvField :: "string \<Rightarrow> string" where
  \<comment> \<open>\<open>/[",\n]/.test(stringField)\<close>, then \<open>replace(/"/g, '""')\<close> between two quotes\<close>
  "escapeCsvField stringField =
     (if \<exists>c \<in> set stringField. c = CHR 0x22 \<or> c = CHR '','' \<or> c = CHR 0x0A
      then [CHR 0x22] @ concat (map (\<lambda>c. if c = CHR 0x22 then [CHR 0x22, CHR 0x22] else [c]) stringField)
           @ [CHR 0x22]
      else stringField)"

definition objectPrototypeNames :: "string list" where
  \<comment> \<open>the members of \<open>Object.prototype\<close>, which every plain object inherits\<close>
  "objectPrototypeNames =
     [''constructor'', ''__defineGetter__'', ''__defineSetter__'', ''hasOwnProperty'',
      ''__lookupGetter__'', ''__lookupSetter__'', ''isPrototypeOf'', ''propertyIsEnumerable'',
      ''toString'', ''valueOf'', ''__proto__'', ''toLocaleString'']"

text \<open>
  \<open>String(row[h])\<close>. A key of the row reads its value. A name that is no key reads
  \<open>undefined\<close>, unless it names a member of \<open>Object.prototype\<close>: then the read gives the
  inherited function or object, and its text is the engine's, taken here as the parameter
  \<open>inheritedText\<close>.
\<close>

definition cellText :: "(string \<Rightarrow> string) \<Rightarrow> row \<Rightarrow> string \<Rightarrow> string" where
  "cellText inheritedText row h =
     (case row h of
        Some v \<Rightarrow> v
      | None \<Rightarrow> (if h \<in> set objectPrototypeNames then inheritedText h else ''undefined''))"

definition csvLine :: "(string \<Rightarrow> string) \<Rightarrow> string list \<Rightarrow> row \<Rightarrow> string" where
  "csvLine inheritedText headers row =
     join '','' (map (\<lambda>h. escapeCsvField (cellText inheritedText row h)) headers)"

text \<open>
  The export text: the header names joined by commas as they are, then one line per row
  with every cell escaped, all joined by line feeds. \<open>handleDownloadCSV\<close> builds it over the
  columns of \<open>rawData\<close> followed by its four analysis columns.
\<close>

definition serializeCsv :: "(string \<Rightarrow> string) \<Rightarrow> string list \<Rightarrow> row list \<Rightarrow> string" where
  "serializeCsv inheritedText headers rows =
     join [CHR 0x0A] (join '','' headers # map (csvLine inheritedText headers) rows)"

section \<open>Taxonomy store (\<open>App\<close> and \<open>CodebookPage\<close>)\<close>

definition activeThemes :: "'r state \<Rightarrow> Theme list" where
  \<comment> \<open>\<open>codebooks[activeCodebook] || []\<close>\<close>
  "activeThemes st = (case map_of (codebooks st) (activeCodebook st) of Some ts \<Rightarrow> ts | None \<Rightarrow> [])"

definition handleSetThemes :: "(Theme list \<Rightarrow> Theme list) \<Rightarrow> 'r state \<Rightarrow> 'r state" where
  "handleSetThemes newThemes st =
     (if activeCodebook st = [] then st
      else
        let currentThemes = (case map_of (codebooks st) (activeCodebook st) of
                               Some ts \<Rightarrow> ts | None \<Rightarrow> []);
            updatedThemes = newThemes currentThemes
        in st\<lparr>codebooks := AList.update (activeCodebook st) updatedThemes (codebooks st)\<rparr>)"

definition handleAddTheme :: "string \<Rightarrow> string \<Rightarrow> 'r state \<Rightarrow> 'r state" where
  "handleAddTheme newThemeName newThemeDescription st =
     (if trim newThemeName \<noteq> [] \<and> trim newThemeDescription \<noteq> [] then
        (if \<exists>theme \<in> set (activeThemes st).
              toLowerCase (name theme) = toLowerCase (trim newThemeName)
         then st\<lparr>codebookError := Some (''Theme '' @ [CHR 0x22] @ newThemeName @ [CHR 0x22]
                                         @ '' already exists.'')\<rparr>
         else handleSetThemes
                (\<lambda>prev. prev @ [\<lparr>name = trim newThemeName, description = trim newThemeDescription\<rparr>])
                (st\<lparr>codebookError := None\<rparr>))
      else st)"

definition handleRemoveTheme :: "nat \<Rightarrow> 'r state \<Rightarrow> 'r state" where
  "handleRemoveTheme index st =
     handleSetThemes (\<lambda>_. map snd (filter (\<lambda>(i, _). i \<noteq> index) (enumerate 0 (activeThemes st)))) st"

definition parseThemeLine :: "string \<Rightarrow> Theme" where
  \<comment> \<open>\<open>parts = line.split(','); parts.shift()?.trim() || ''; parts.join(',').trim() || ''\<close>\<close>
  "parseThemeLine line =
     (let parts = splitOn (CHR '','') line
      in \<lparr>name = trim (hd parts), description = trim (join '','' (tl parts))\<rparr>)"

definition parseThemes :: "string \<Rightarrow> Theme list" where
  "parseThemes text =
     filter (\<lambda>theme. name theme \<noteq> [] \<and> description theme \<noteq> [])
       (map parseThemeLine
          (filter (\<lambda>line. CHR '','' \<in> set line) (map trim (splitOn (CHR 0x0A) text))))"

definition handleFileUpload :: "string \<Rightarrow> 'r state \<Rightarrow> 'r state" where
  "handleFileUpload text st =
     (let newThemes = parseThemes text
      in (handleSetThemes
            (\<lambda>prevThemes.
               let uniqueNewThemes =
                     filter (\<lambda>newTheme. \<not> (\<exists>existingTheme \<in> set prevThemes.
                                toLowerCase (name existingTheme) = toLowerCase (name newTheme)))
                       newThemes
               in prevThemes @ uniqueNewThemes)
            st)\<lparr>codebookError := None\<rparr>)"

definition handleDeleteCodebook :: "string \<Rightarrow> 'r state \<Rightarrow> 'r state" where
  "handleDeleteCodebook codebookNameToDelete st =
     (let newCodebooks = AList.delete codebookNameToDelete (codebooks st);
          st1 = st\<lparr>codebooks := newCodebooks, results := [], reportContent := [],
                   chatHistory := []\<rparr>
      in if activeCodebook st = codebookNameToDelete then
           let remainingCodebookNames = sort (map fst newCodebooks);
               newActiveCodebook =
                 (if length remainingCodebookNames > 0 then hd remainingCodebookNames else [])
           in st1\<lparr>activeCodebook := newActiveCodebook\<rparr>
         else st1)"

definition handleAddNewThemes :: "Theme list \<Rightarrow> 'r state \<Rightarrow> 'r state" where
  "handleAddNewThemes newThemes st =
     (if activeCodebook st = [] then st
      else
        let existingThemeNames = set (map (\<lambda>t. toLowerCase (name t)) (activeThemes st));
            uniqueNewThemes =
              filter (\<lambda>newTheme. toLowerCase (name newTheme) \<notin> existingThemeNames) newThemes
        in if length uniqueNewThemes > 0
           then handleSetThemes (\<lambda>prevThemes. prevThemes @ uniqueNewThemes) st
           else st)"

text \<open>The invariant of a taxonomy: names pairwise distinct, compared in lower case.\<close>

definition uniqueNames :: "Theme list \<Rightarrow> bool" where
  "uniqueNames themes \<longleftrightarrow> distinct (map (\<lambda>t. toLowerCase (name t)) themes)"

section \<open>Annotation reconciler (\<open>runAnalysis\<close>, \<open>handleSuggestionsComplete\<close>)\<close>

definition originalDataRow :: "row list \<Rightarrow> string \<Rightarrow> AnalysisResult \<Rightarrow> nat \<Rightarrow> row option" where
  \<comment> \<open>\<open>uploadedData.find(d => d[responseColumn] === analysisResult.originalResponse)
       || uploadedData[index]\<close>\<close>
  "originalDataRow uploaded column analysisResult index =
     (case find (\<lambda>d. d column = Some (originalResponse analysisResult)) uploaded of
        Some d \<Rightarrow> Some d
      | None \<Rightarrow> (if index < length uploaded then Some (uploaded ! index) else None))"

definition newResult :: "row list \<Rightarrow> string \<Rightarrow> nat \<times> AnalysisResult \<Rightarrow> CodingResult" where
  "newResult uploaded column = (\<lambda>(index, analysisResult).
     \<lparr>themeName = AnalysisResult.themeName analysisResult,
      sentiment = AnalysisResult.sentiment analysisResult,
      confidenceScore = AnalysisResult.confidenceScore analysisResult,
      reasoning = AnalysisResult.reasoning analysisResult,
      responseColumn = column,
      suggestedTheme = AnalysisResult.suggestedTheme analysisResult,
      rawData = originalDataRow uploaded column analysisResult index\<rparr>)"

definition newResults :: "CodingResult state \<Rightarrow> AnalysisResult list \<Rightarrow> CodingResult list" where
  "newResults st parsed =
     map (newResult (uploadedData st) (state.responseColumn st)) (enumerate 0 parsed)"

definition isSuggestion :: "CodingResult \<Rightarrow> bool" where
  \<comment> \<open>\<open>r.suggestedTheme && r.suggestedTheme.name && r.suggestedTheme.description\<close>\<close>
  "isSuggestion r =
     (case CodingResult.suggestedTheme r of
        None \<Rightarrow> False
      | Some t \<Rightarrow> name t \<noteq> [] \<and> description t \<noteq> [])"

definition isRegular :: "CodingResult \<Rightarrow> bool" where
  \<comment> \<open>\<open>!r.suggestedTheme || !r.suggestedTheme.name\<close>\<close>
  "isRegular r =
     (case CodingResult.suggestedTheme r of
        None \<Rightarrow> True
      | Some t \<Rightarrow> name t = [])"

definition ai :: "'r state \<Rightarrow> bool" where
  \<comment> \<open>\<open>apiKey ? new GoogleGenAI({ apiKey }) : null\<close> is not null\<close>
  "ai st = (case apiKey st of None \<Rightarrow> False | Some k \<Rightarrow> k \<noteq> [])"

definition apiError :: "string \<Rightarrow> string" where
  "apiError errorMessage =
     ''An error occurred while communicating with the API. Please try again.'' @ [CHR 0x0A]
       @ ''Details: '' @ errorMessage"

definition runAnalysis :: "Mode \<Rightarrow> ApiOutcome \<Rightarrow> CodingResult state \<Rightarrow> CodingResult state" where
  "runAnalysis mode outcome st =
     (if state.responseColumn st = [] then
        st\<lparr>error := Some ''Please select the column containing the response text.''\<rparr>
      else
        let st1 = st\<lparr>isLoading := True, error := None, analysisMode := Some mode\<rparr>;
            st2 =
              (case (if \<not> ai st then CallFailed ''API key not set.'' else outcome) of
                 CallFailed errorMessage \<Rightarrow> st1\<lparr>error := Some (apiError errorMessage)\<rparr>
               | DecodeFailed errorMessage \<Rightarrow> st1\<lparr>error := Some (apiError errorMessage)\<rparr>
               | Decoded parsed \<Rightarrow>
                   let results' = newResults st parsed;
                       suggestions = filter isSuggestion results';
                       regularResults = filter isRegular results';
                       st3 = st1\<lparr>pendingResults := regularResults\<rparr>;
                       st4 =
                         (if length suggestions > 0 then
                            st3\<lparr>suggestedThemes := suggestions, isSuggestionModalOpen := True\<rparr>
                          else
                            st3\<lparr>results := (if mode = Append then results st3 @ regularResults
                                              else regularResults),
                                pendingResults := []\<rparr>)
                   in st4\<lparr>uploadedData := [], dataHeaders := [], responseColumn := []\<rparr>)
        in st2\<lparr>isLoading := False\<rparr>)"

definition handleSuggestionsComplete :: "CodingResult list \<Rightarrow> Theme list \<Rightarrow> CodingResult state \<Rightarrow> CodingResult state" where
  "handleSuggestionsComplete processedSuggestions newThemes st =
     (let st1 = handleAddNewThemes newThemes st;
          finalResults = pendingResults st1 @ processedSuggestions;
          st2 = st1\<lparr>results := (if analysisMode st1 = Some Append then results st1 @ finalResults
                                  else finalResults)\<rparr>
      in st2\<lparr>isSuggestionModalOpen := False, suggestedThemes := [], pendingResults := [],
              analysisMode := None\<rparr>)"

subsection \<open>The run on the reply as it arrives\<close>

text \<open>
  \<open>runAnalysis\<close> reads the reply with no check of its shape. Here the reply is any JSON
  value, and each read is modelled as JavaScript performs it. The messages of the type
  errors are those of V8.
\<close>

definition getProperty :: "json \<Rightarrow> string \<Rightarrow> jsval" where
  \<comment> \<open>\<open>v[key]\<close> for a value \<open>v\<close> other than \<open>null\<close> and a name that no prototype defines
      (\<open>results\<close>, the six field names of a record, \<open>name\<close>, \<open>description\<close>)\<close>
  "getProperty v key = (case v of JObject properties \<Rightarrow> map_of properties key | _ \<Rightarrow> None)"

definition truthy :: "jsval \<Rightarrow> bool" where
  "truthy x =
     (case x of
        None \<Rightarrow> False
      | Some JNull \<Rightarrow> False
      | Some (JBool b) \<Rightarrow> b
      | Some (JNumber n) \<Rightarrow> n \<noteq> 0
      | Some (JString s) \<Rightarrow> s \<noteq> []
      | Some (JArray _) \<Rightarrow> True
      | Some (JObject _) \<Rightarrow> True)"

definition cannotRead :: "string \<Rightarrow> string \<Rightarrow> string" where
  "cannotRead what key =
     ''Cannot read properties of '' @ what @ '' (reading '' @ [CHR 0x27] @ key @ [CHR 0x27] @ '')''"

definition replyResults :: "json \<Rightarrow> error + json list" where
  \<comment> \<open>\<open>parsedResponse.results.map(...)\<close>: the elements the callback is applied to; only an
      array has a \<open>map\<close> that can be called\<close>
  "replyResults parsedResponse =
     (case parsedResponse of
        JNull \<Rightarrow> Inl (Error (cannotRead ''null'' ''results''))
      | _ \<Rightarrow>
          (case getProperty parsedResponse ''results'' of
             None \<Rightarrow> Inl (Error (cannotRead ''undefined'' ''map''))
           | Some JNull \<Rightarrow> Inl (Error (cannotRead ''null'' ''map''))
           | Some (JArray elements) \<Rightarrow> Inr elements
           | Some _ \<Rightarrow> Inl (Error ''parsedResponse.results.map is not a function'')))"

definition rowValueIs :: "row \<Rightarrow> string \<Rightarrow> jsval \<Rightarrow> bool" where
  \<comment> \<open>\<open>d[responseColumn] === x\<close>: a key reads its string; a name that is no key reads
      \<open>undefined\<close>, or the inherited member of \<open>Object.prototype\<close>, which no JSON value equals\<close>
  "rowValueIs d column x =
     (case d column of
        Some s \<Rightarrow> x = Some (JString s)
      | None \<Rightarrow> column \<notin> set objectPrototypeNames \<and> x = None)"

definition originalDataRowRaw :: "row list \<Rightarrow> string \<Rightarrow> json \<Rightarrow> nat \<Rightarrow> row option" where
  "originalDataRowRaw uploaded column analysisResult index =
     (case find (\<lambda>d. rowValueIs d column (getProperty analysisResult ''originalResponse''))
             uploaded of
        Some d \<Rightarrow> Some d
      | None \<Rightarrow> (if index < length uploaded then Some (uploaded ! index) else None))"

definition newRawResult :: "row list \<Rightarrow> string \<Rightarrow> nat \<times> json \<Rightarrow> RawResult" where
  \<comment> \<open>the callback of \<open>map\<close>, on an element other than \<open>null\<close>\<close>
  "newRawResult uploaded column = (\<lambda>(index, analysisResult).
     \<lparr>RawResult.themeName = getProperty analysisResult ''themeName'',
      sentiment = getProperty analysisResult ''sentiment'',
      confidenceScore = getProperty analysisResult ''confidenceScore'',
      reasoning = getProperty analysisResult ''reasoning'',
      responseColumn = column,
      suggestedTheme = getProperty analysisResult ''suggestedTheme'',
      rawData = originalDataRowRaw uploaded column analysisResult index\<rparr>)"

definition newRawResults :: "RawResult state \<Rightarrow> json list \<Rightarrow> error + RawResult list" where
  \<comment> \<open>reading \<open>originalResponse\<close> of a \<open>null\<close> element throws, and nothing is kept\<close>
  "newRawResults st elements =
     (if JNull \<in> set elements then Inl (Error (cannotRead ''null'' ''originalResponse''))
      else Inr (map (newRawResult (uploadedData st) (state.responseColumn st))
                  (enumerate 0 elements)))"

definition isRawSuggestion :: "RawResult \<Rightarrow> bool" where
  \<comment> \<open>\<open>r.suggestedTheme && r.suggestedTheme.name && r.suggestedTheme.description\<close>\<close>
  "isRawSuggestion r =
     (case RawResult.suggestedTheme r of
        None \<Rightarrow> False
      | Some v \<Rightarrow> truthy (Some v) \<and> truthy (getProperty v ''name'')
                    \<and> truthy (getProperty v ''description''))"

definition isRawRegular :: "RawResult \<Rightarrow> bool" where
  \<comment> \<open>\<open>!r.suggestedTheme || !r.suggestedTheme.name\<close>\<close>
  "isRawRegular r =
     (case RawResult.suggestedTheme r of
        None \<Rightarrow> True
      | Some v \<Rightarrow> \<not> truthy (Some v) \<or> \<not> truthy (getProperty v ''name''))"

definition runAnalysisOnReply :: "Mode \<Rightarrow> Reply \<Rightarrow> RawResult state \<Rightarrow> RawResult state" where
  "runAnalysisOnReply mode reply st =
     (if state.responseColumn st = [] then
        st\<lparr>error := Some ''Please select the column containing the response text.''\<rparr>
      else
        let st1 = st\<lparr>isLoading := True, error := None, analysisMode := Some mode\<rparr>;
            decoded =
              (if \<not> ai st then Inl (Error ''API key not set.'')
               else
                 (case reply of
                    Rejected errorMessage \<Rightarrow> Inl (Error errorMessage)
                  | NotJson errorMessage \<Rightarrow> Inl (Error errorMessage)
                  | Json parsedResponse \<Rightarrow>
                      (case replyResults parsedResponse of
                         Inl e \<Rightarrow> Inl e
                       | Inr elements \<Rightarrow> newRawResults st elements)));
            st2 =
              (case decoded of
                 Inl (Error errorMessage) \<Rightarrow> st1\<lparr>error := Some (apiError errorMessage)\<rparr>
               | Inr results' \<Rightarrow>
                   let suggestions = filter isRawSuggestion results';
                       regularResults = filter isRawRegular results';
                       st3 = st1\<lparr>pendingResults := regularResults\<rparr>;
                       st4 =
                         (if length suggestions > 0 then
                            st3\<lparr>suggestedThemes := suggestions, isSuggestionModalOpen := True\<rparr>
                          else
                            st3\<lparr>results := (if mode = Append then results st3 @ regularResults
                                              else regularResults),
                                pendingResults := []\<rparr>)
                   in st4\<lparr>uploadedData := [], dataHeaders := [], responseColumn := []\<rparr>)
        in st2\<lparr>isLoading := False\<rparr>)"

text \<open>
  The two models of the run agree on the replies that have the shape of the response
  schema: \<open>replyOf\<close> writes an outcome of typed records as the reply, and \<open>rawOf\<close> reads a
  typed result as the record built at run time.
\<close>

definition encodeTheme :: "Theme \<Rightarrow> json" where
  "encodeTheme t = JObject [(''name'', JString (name t)), (''description'', JString (description t))]"

definition encodeRecord :: "AnalysisResult \<Rightarrow> json" where
  "encodeRecord a =
     JObject
       ([(''originalResponse'', JString (originalResponse a)),
         (''themeName'', JString (AnalysisResult.themeName a)),
         (''sentiment'', JString (AnalysisResult.sentiment a)),
         (''confidenceScore'', JNumber (AnalysisResult.confidenceScore a)),
         (''reasoning'', JString (AnalysisResult.reasoning a))]
        @ (case AnalysisResult.suggestedTheme a of
             None \<Rightarrow> []
           | Some t \<Rightarrow> [(''suggestedTheme'', encodeTheme t)]))"

definition replyOf :: "ApiOutcome \<Rightarrow> Reply" where
  "replyOf outcome =
     (case outcome of
        CallFailed errorMessage \<Rightarrow> Rejected errorMessage
      | DecodeFailed errorMessage \<Rightarrow> NotJson errorMessage
      | Decoded parsed \<Rightarrow> Json (JObject [(''results'', JArray (map encodeRecord parsed))]))"

definition rawOf :: "CodingResult \<Rightarrow> RawResult" where
  "rawOf r =
     \<lparr>RawResult.themeName = Some (JString (CodingResult.themeName r)),
      sentiment = Some (JString (CodingResult.sentiment r)),
      confidenceScore = Some (JNumber (CodingResult.confidenceScore r)),
      reasoning = Some (JString (CodingResult.reasoning r)),
      responseColumn = CodingResult.responseColumn r,
      suggestedTheme = map_option encodeTheme (CodingResult.suggestedTheme r),
      rawData = CodingResult.rawData r\<rparr>"

definition mapResults :: "('a \<Rightarrow> 'b) \<Rightarrow> 'a state \<Rightarrow> 'b state" where
  "mapResults f st =
     \<lparr>apiKey = apiKey st, codebooks = codebooks st, activeCodebook = activeCodebook st,
      results = map f (results st), reportContent = reportContent st,
      chatHistory = chatHistory st, codebookError = codebookError st,
      isLoading = isLoading st, error = error st, uploadedData = uploadedData st,
      dataHeaders = dataHeaders st, responseColumn = state.responseColumn st,
      isSuggestionModalOpen = isSuggestionModalOpen st,
      suggestedThemes = map f (suggestedThemes st),
      pendingResults = map f (pendingResults st), analysisMode = analysisMode st\<rparr>"

section \<open>Suggestion approval (\<open>ThemeSuggestionModal\<close>)\<close>

definition seedSuggestion :: "CodingResult \<Rightarrow> SuggestedThemeWithStatus option" where
  \<comment> \<open>\<open>{ ...s, isApproved: true, editedName: s.suggestedTheme!.name,
       editedDescription: s.suggestedTheme!.description }\<close>; reading the name of a missing
      \<open>suggestedTheme\<close> throws, which is \<open>None\<close>\<close>
  "seedSuggestion s =
     (case CodingResult.suggestedTheme s of
        None \<Rightarrow> None
      | Some t \<Rightarrow>
          Some (CodingResult.extend s
                  (SuggestedThemeWithStatus.fields True (name t) (description t))))"

definition seedSuggestions :: "CodingResult list \<Rightarrow> SuggestedThemeWithStatus list option" where
  \<comment> \<open>the effect that fills \<open>processedSuggestions\<close> from the suggestions of the run\<close>
  "seedSuggestions suggestions = those (map seedSuggestion suggestions)"

definition handleToggleApproval ::
  "nat \<Rightarrow> SuggestedThemeWithStatus list \<Rightarrow> SuggestedThemeWithStatus list" where
  "handleToggleApproval index prev =
     map (\<lambda>(i, s). if i = index then s\<lparr>isApproved := \<not> isApproved s\<rparr> else s) (enumerate 0 prev)"

datatype Field = EditedName | EditedDescription

definition handleFieldChange ::
  "nat \<Rightarrow> Field \<Rightarrow> string \<Rightarrow> SuggestedThemeWithStatus list \<Rightarrow> SuggestedThemeWithStatus list" where
  "handleFieldChange index field v prev =
     map (\<lambda>(i, s). if i = index
                    then (case field of EditedName \<Rightarrow> s\<lparr>editedName := v\<rparr>
                                      | EditedDescription \<Rightarrow> s\<lparr>editedDescription := v\<rparr>)
                    else s)
       (enumerate 0 prev)"

definition accepted :: "SuggestedThemeWithStatus \<Rightarrow> bool" where
  \<comment> \<open>\<open>s.isApproved && s.editedName.trim() && s.editedDescription.trim()\<close>\<close>
  "accepted s \<longleftrightarrow> isApproved s \<and> trim (editedName s) \<noteq> [] \<and> trim (editedDescription s) \<noteq> []"

definition coreResult :: "SuggestedThemeWithStatus \<Rightarrow> CodingResult" where
  \<comment> \<open>\<open>const { suggestedTheme, isApproved, editedName, editedDescription, ...coreResult } = s\<close>\<close>
  "coreResult s = (CodingResult.truncate s)\<lparr>CodingResult.suggestedTheme := None\<rparr>"

definition newThemeOf :: "SuggestedThemeWithStatus \<Rightarrow> Theme" where
  \<comment> \<open>\<open>{ name: s.editedName.trim(), description: s.editedDescription.trim() }\<close>\<close>
  "newThemeOf s = \<lparr>name = trim (editedName s), description = trim (editedDescription s)\<rparr>"

definition finishStep ::
  "SuggestedThemeWithStatus \<Rightarrow> Theme list \<times> CodingResult list \<Rightarrow> Theme list \<times> CodingResult list" where
  "finishStep s = (\<lambda>(newThemes, finalResults).
     if accepted s then
       let newTheme = newThemeOf s
       in (newThemes @ [newTheme],
           finalResults @ [(coreResult s)\<lparr>CodingResult.themeName := name newTheme\<rparr>])
     else (newThemes, finalResults @ [(coreResult s)\<lparr>CodingResult.themeName := ''Uncategorized''\<rparr>]))"

definition handleFinish :: "SuggestedThemeWithStatus list \<Rightarrow> CodingResult state \<Rightarrow> CodingResult state" where
  \<comment> \<open>the \<open>forEach\<close> over \<open>processedSuggestions\<close>, then \<open>onComplete(finalResults, newThemes)\<close>\<close>
  "handleFinish processedSuggestions st =
     (let (newThemes, finalResults) = fold finishStep processedSuggestions ([], [])
      in handleSuggestionsComplete finalResults newThemes st)"

section \<open>Initial state\<close>

definition initialState :: "'r state" where
  \<comment> \<open>the initial values of the \<open>useState\<close> hooks, with nothing in local storage\<close>
  "initialState =
     \<lparr>apiKey = None, codebooks = [], activeCodebook = [], results = [], reportContent = [],
      chatHistory = [], codebookError = None, isLoading = False, error = None,
      uploadedData = [], dataHeaders = [], responseColumn = [],
      isSuggestionModalOpen = False, suggestedThemes = [], pendingResults = [],
      analysisMode = None\<rparr>"

section \<open>Example inputs\<close>

abbreviation exampleRecord :: "string \<Rightarrow> Theme option \<Rightarrow> AnalysisResult" where
  "exampleRecord response suggestion \<equiv>
     \<lparr>originalResponse = response, themeName = ''Uncategorized'', sentiment = ''Neutral'',
      confidenceScore = 1, reasoning = [], suggestedTheme = suggestion\<rparr>"

abbreviation exampleResult :: "string \<Rightarrow> Theme option \<Rightarrow> CodingResult" where
  "exampleResult response suggestion \<equiv>
     \<lparr>themeName = ''Uncategorized'', sentiment = ''Neutral'', confidenceScore = 1,
      reasoning = [], responseColumn = ''response'', suggestedTheme = suggestion,
      rawData = Some [''response'' \<mapsto> response]\<rparr>"

abbreviation exampleUpload :: "string list \<Rightarrow> 'r state \<Rightarrow> 'r state" where
  "exampleUpload responses st \<equiv>
     st\<lparr>apiKey := Some ''key'',
        uploadedData := map (\<lambda>r. [''response'' \<mapsto> r]) responses,
        dataHeaders := [''response''],
        responseColumn := ''response''\<rparr>"

abbreviation exampleCodebook :: "Theme list \<Rightarrow> 'r state \<Rightarrow> 'r state" where
  "exampleCodebook themes st \<equiv> st\<lparr>codebooks := [(''cb'', themes)], activeCodebook := ''cb''\<rparr>"

abbreviation exampleInheritedText :: "string \<Rightarrow> string" where
  "exampleInheritedText h \<equiv> ''[object Object]''"

section \<open>Properties of the tabular parser\<close>

lemma makeRow_Nil: "makeRow [] vs = Map.empty"
  by (simp add: makeRow_def)

lemma makeRow_snoc:
  "makeRow (hs @ [h]) vs = setProperty (makeRow hs vs) h (valueAt vs (length hs))"
  by (simp add: makeRow_def)




lemma valueAt_eq: "valueAt vs i = (if i < length vs then vs ! i else [])"
  by (simp add: valueAt_def)


lemma consFirst_length: "length (consFirst c ls) = max 1 (length ls)"
  by (cases ls) simp_all

lemma splitLines_nonempty: "splitLines s \<noteq> []"
  by (induction s rule: splitLines.induct)
     (auto simp: neq_Nil_conv split: list.splits elim: consFirst.elims)

lemma splitLines_length:
  "length (splitLines s) < 2 \<longleftrightarrow> CHR 0x0D \<notin> set s \<and> CHR 0x0A \<notin> set s"
  using splitLines_nonempty[of s]
  by (induction s rule: splitLines.induct) (auto simp: consFirst_length splitLines_nonempty)

lemma parseCsv_Inr:
  "2 \<le> length (splitLines (trim csvText)) \<Longrightarrow>
   parseCsv csvText =
     Inr (parseLine (hd (splitLines (trim csvText))),
          List.map_filter
            (\<lambda>line. if trim line = [] then None
                    else Some (makeRow (parseLine (hd (splitLines (trim csvText)))) (parseLine line)))
            (tl (splitLines (trim csvText))))"
  by (simp add: parseCsv_def Let_def)

lemma parseCsv_Inl:
  "length (splitLines (trim csvText)) < 2 \<Longrightarrow>
   parseCsv csvText = Inl (Error ''CSV must have a header row and at least one data row.'')"
  by (simp add: parseCsv_def Let_def)

lemma dropWhile_keeps: "x \<in> set xs \<Longrightarrow> \<not> P x \<Longrightarrow> x \<in> set (dropWhile P xs)"
  by (induction xs) auto

lemma trim_nonempty: "c \<in> set s \<Longrightarrow> \<not> isWhiteSpace c \<Longrightarrow> trim s \<noteq> []"
proof -
  assume c: "c \<in> set s" "\<not> isWhiteSpace c"
  then have "c \<in> set (dropWhile isWhiteSpace s)" by (rule dropWhile_keeps)
  with c(2) show ?thesis by (auto simp: trim_def)
qed

lemma last_consFirst:
  "ls \<noteq> [] \<Longrightarrow> last ls \<noteq> [] \<Longrightarrow>
   last (consFirst c ls) \<noteq> [] \<and> last (last (consFirst c ls)) = last (last ls)"
proof -
  assume a: "ls \<noteq> []" "last ls \<noteq> []"
  then obtain l ks where ls: "ls = l # ks" by (cases ls) auto
  with a show ?thesis by (cases ks) simp_all
qed

lemma last_splitLines:
  "s \<noteq> [] \<Longrightarrow> last s \<noteq> CHR 0x0D \<Longrightarrow> last s \<noteq> CHR 0x0A \<Longrightarrow>
   last (splitLines s) \<noteq> [] \<and> last (last (splitLines s)) = last s"
proof (induction s rule: splitLines.induct)
  case 1 then show ?case by simp
next
  case (2 c) then show ?case by simp
next
  case (3 c d cs)
  have l: "last (c # d # cs) = last (d # cs)" by simp
  show ?case
  proof (cases "c = CHR 0x0D \<and> d = CHR 0x0A")
    case True
    with "3.prems" have cs: "cs \<noteq> []" by auto
    then have l2: "last (c # d # cs) = last cs" by simp
    from True have eq: "splitLines (c # d # cs) = [] # splitLines cs" by simp
    from "3.prems" l2 have "last cs \<noteq> CHR 0x0D" "last cs \<noteq> CHR 0x0A" by simp_all
    with "3.IH"(1)[OF True cs] have "last (splitLines cs) \<noteq> [] \<and>
          last (last (splitLines cs)) = last cs" by simp
    then show ?thesis unfolding eq l2 by (simp add: splitLines_nonempty)
  next
    case False
    note nf = this
    have p1: "last (d # cs) \<noteq> CHR 0x0D" using "3.prems"(2) unfolding l .
    have p2: "last (d # cs) \<noteq> CHR 0x0A" using "3.prems"(3) unfolding l .
    note p = p1 p2
    have dne: "d # cs \<noteq> []" by simp
    show ?thesis
    proof (cases "c = CHR 0x0D \<or> c = CHR 0x0A")
      case True
      from True nf have eq: "splitLines (c # d # cs) = [] # splitLines (d # cs)" by auto
      from "3.IH"(2)[OF nf True dne p] show ?thesis
        unfolding eq l by (simp add: splitLines_nonempty)
    next
      case False
      from False nf have eq: "splitLines (c # d # cs) = consFirst c (splitLines (d # cs))" by auto
      from "3.IH"(3)[OF nf False dne p]
      have ih: "last (splitLines (d # cs)) \<noteq> []"
        "last (last (splitLines (d # cs))) = last (d # cs)" by simp_all
      from last_consFirst[OF splitLines_nonempty ih(1), of c] ih(2)
      show ?thesis unfolding eq l by simp
    qed
  qed
qed

lemma last_trim: "trim s \<noteq> [] \<Longrightarrow> \<not> isWhiteSpace (last (trim s))"
proof -
  assume ne: "trim s \<noteq> []"
  define ys where "ys = dropWhile isWhiteSpace (rev (dropWhile isWhiteSpace s))"
  from ne have ys: "ys \<noteq> []" by (simp add: trim_def ys_def)
  then have "\<not> isWhiteSpace (hd ys)" unfolding ys_def by (rule hd_dropWhile)
  moreover have "last (trim s) = hd ys" using ys by (simp add: trim_def ys_def last_rev)
  ultimately show ?thesis by simp
qed

lemma last_line_nonblank:
  assumes "2 \<le> length (splitLines (trim csvText))"
  shows "last (tl (splitLines (trim csvText))) \<in> set (tl (splitLines (trim csvText))) \<and>
         trim (last (tl (splitLines (trim csvText)))) \<noteq> []"
proof -
  define s where "s = trim csvText"
  define ls where "ls = splitLines s"
  from assms have len: "2 \<le> length ls" by (simp add: ls_def s_def)
  have sne: "s \<noteq> []"
  proof
    assume "s = []"
    then have "ls = [[]]" by (simp add: ls_def)
    with len show False by simp
  qed
  then have ws: "\<not> isWhiteSpace (last s)" unfolding s_def by (rule last_trim)
  then have "last s \<noteq> CHR 0x0D" "last s \<noteq> CHR 0x0A" by (auto simp: isWhiteSpace_def)
  from last_splitLines[OF sne this]
  have l: "last ls \<noteq> []" "last (last ls) = last s" by (simp_all add: ls_def)
  from l(1) have "last (last ls) \<in> set (last ls)" by (rule last_in_set)
  then have "last s \<in> set (last ls)" by (simp only: l(2))
  then have nb: "trim (last ls) \<noteq> []" using ws by (rule trim_nonempty)
  from len have tl: "tl ls \<noteq> []" by (cases ls; cases "tl ls") auto
  then have "last (tl ls) = last ls" by (simp add: last_tl)
  moreover from tl have "last (tl ls) \<in> set (tl ls)" by (rule last_in_set)
  ultimately have "last (tl ls) \<in> set (tl ls) \<and> trim (last (tl ls)) \<noteq> []"
    using nb by simp
  then show ?thesis unfolding ls_def s_def .
qed

lemma map_filter_nonempty:
  "x \<in> set xs \<Longrightarrow> f x \<noteq> None \<Longrightarrow> List.map_filter f xs \<noteq> []"
  by (auto simp: List.map_filter_def filter_empty_conv)

text \<open>
  Claim C7. \<open>parseCsv\<close> fails exactly when the trimmed text splits into fewer than two
  lines, and then with the format error; with two lines or more it returns headers and
  rows, with at least one row, since the last line of a trimmed text is never blank.
  Fewer than two lines means that the trimmed text holds no carriage return and no line
  feed.
\<close>

theorem parseCsv_fails_iff_fewer_than_two_lines:
  "((\<exists>e. parseCsv csvText = Inl e) \<longleftrightarrow> length (splitLines (trim csvText)) < 2) \<and>
   (length (splitLines (trim csvText)) < 2 \<longrightarrow>
      parseCsv csvText = Inl (Error ''CSV must have a header row and at least one data row.'')) \<and>
   (2 \<le> length (splitLines (trim csvText)) \<longrightarrow>
      (\<exists>headers data. parseCsv csvText = Inr (headers, data) \<and> data \<noteq> [])) \<and>
   (length (splitLines (trim csvText)) < 2 \<longleftrightarrow>
      CHR 0x0D \<notin> set (trim csvText) \<and> CHR 0x0A \<notin> set (trim csvText))"
proof (cases "length (splitLines (trim csvText)) < 2")
  case True
  then show ?thesis
    using parseCsv_Inl[OF True] splitLines_length[of "trim csvText"] by simp
next
  case False
  then have len: "2 \<le> length (splitLines (trim csvText))" by simp
  from last_line_nonblank[OF len]
  have "List.map_filter
            (\<lambda>line. if trim line = [] then None
                    else Some (makeRow (parseLine (hd (splitLines (trim csvText)))) (parseLine line)))
            (tl (splitLines (trim csvText))) \<noteq> []"
    by (intro map_filter_nonempty[of "last (tl (splitLines (trim csvText)))"]) simp_all
  with parseCsv_Inr[OF len] False show ?thesis
    using splitLines_length[of "trim csvText"] by simp
qed

theorem parseCsv_fails_iff_fewer_than_two_lines_witness:
  "(\<exists>headers data. parseCsv ''id,text\<newline>1,ok'' = Inr (headers, data) \<and> data \<noteq> []) \<and>
   2 \<le> length (splitLines (trim ''id,text\<newline>1,ok'')) \<and>
   parseCsv ''id,text  '' = Inl (Error ''CSV must have a header row and at least one data row.'') \<and>
   length (splitLines (trim ''id,text  '')) < 2"
proof -
  have a: "2 \<le> length (splitLines (trim ''id,text\<newline>1,ok''))"
    by (simp add: trim_def isWhiteSpace_def)
  have b: "length (splitLines (trim ''id,text  '')) < 2"
    by (simp add: trim_def isWhiteSpace_def)
  from a b parseCsv_fails_iff_fewer_than_two_lines[of "''id,text\<newline>1,ok''"]
    parseCsv_fails_iff_fewer_than_two_lines[of "''id,text  ''"]
  show ?thesis by blast
qed





section \<open>Round trip of the row codec through the parser\<close>

lemma loop_bare:
  "CHR '','' \<notin> set v \<Longrightarrow> CHR 0x22 \<notin> set v \<Longrightarrow>
   parseLine_loop (v @ rest) result field False = parseLine_loop rest result (field @ v) False"
  by (induction v arbitrary: field) auto

lemma loop_quoted:
  "rest = [] \<or> hd rest \<noteq> CHR 0x22 \<Longrightarrow>
   parseLine_loop (concat (map (\<lambda>c. if c = CHR 0x22 then [CHR 0x22, CHR 0x22] else [c]) v)
                     @ CHR 0x22 # rest) result field True
     = parseLine_loop rest result (field @ v) False"
  by (induction v arbitrary: field) auto

lemma loop_escape:
  assumes "rest = [] \<or> hd rest = CHR '',''"
  shows "parseLine_loop (escapeCsvField v @ rest) result field False
           = parseLine_loop rest result (field @ v) False"
proof (cases "\<exists>c \<in> set v. c = CHR 0x22 \<or> c = CHR '','' \<or> c = CHR 0x0A")
  case True
  from assms have r: "rest = [] \<or> hd rest \<noteq> CHR 0x22" by auto
  from True have "escapeCsvField v @ rest =
      CHR 0x22 # (concat (map (\<lambda>c. if c = CHR 0x22 then [CHR 0x22, CHR 0x22] else [c]) v)
                   @ CHR 0x22 # rest)"
    by (simp add: escapeCsvField_def)
  then show ?thesis using loop_quoted[OF r, of v result field] by simp
next
  case False
  then have "escapeCsvField v = v" "CHR '','' \<notin> set v" "CHR 0x22 \<notin> set v"
    by (auto simp: escapeCsvField_def)
  then show ?thesis using loop_bare[of v rest result field] by simp
qed

lemma parse_join_escaped:
  "vs \<noteq> [] \<Longrightarrow>
   parseLine_loop (join '','' (map escapeCsvField vs)) result [] False = result @ vs"
proof (induction vs arbitrary: result rule: list_nonempty_induct)
  case (single v)
  show ?case using loop_escape[of "[]" v result "[]"] by simp
next
  case (cons v vs)
  then obtain w ws where vs: "vs = w # ws" by (cases vs) auto
  have "parseLine_loop (escapeCsvField v @ CHR '','' # join '','' (map escapeCsvField vs)) result [] False
        = parseLine_loop (CHR '','' # join '','' (map escapeCsvField vs)) result v False"
    using loop_escape[of "CHR '','' # join '','' (map escapeCsvField vs)" v result "[]"] by simp
  also have "\<dots> = parseLine_loop (join '','' (map escapeCsvField vs)) (result @ [v]) [] False"
    by simp
  also have "\<dots> = (result @ [v]) @ vs" by (rule cons.IH)
  finally show ?case by (simp add: vs)
qed

lemma parse_join_bare:
  "hs \<noteq> [] \<Longrightarrow> \<forall>h \<in> set hs. CHR '','' \<notin> set h \<and> CHR 0x22 \<notin> set h \<Longrightarrow>
   parseLine_loop (join '','' hs) result [] False = result @ hs"
proof (induction hs arbitrary: result rule: list_nonempty_induct)
  case (single h)
  then show ?case using loop_bare[of h "[]" result "[]"] by simp
next
  case (cons h hs)
  then obtain w ws where hs: "hs = w # ws" by (cases hs) auto
  from cons.prems have bare: "CHR '','' \<notin> set h" "CHR 0x22 \<notin> set h" by auto
  have "parseLine_loop (h @ CHR '','' # join '','' hs) result [] False
        = parseLine_loop (CHR '','' # join '','' hs) result h False"
    using loop_bare[OF bare, of "CHR '','' # join '','' hs" result "[]"] by simp
  also have "\<dots> = parseLine_loop (join '','' hs) (result @ [h]) [] False"
    by simp
  also have "\<dots> = (result @ [h]) @ hs" using cons.prems by (intro cons.IH) simp
  finally show ?case by (simp add: hs)
qed

lemma splitLines_Cons:
  "c \<noteq> CHR 0x0D \<Longrightarrow>
   splitLines (c # cs) = (if c = CHR 0x0A then [] # splitLines cs else consFirst c (splitLines cs))"
  by (cases cs) auto

lemma splitLines_bare:
  "CHR 0x0D \<notin> set l \<Longrightarrow> CHR 0x0A \<notin> set l \<Longrightarrow> splitLines l = [l]"
  by (induction l) (auto simp: splitLines_Cons)

lemma splitLines_line:
  "CHR 0x0D \<notin> set l \<Longrightarrow> CHR 0x0A \<notin> set l \<Longrightarrow>
   splitLines (l @ CHR 0x0A # rest) = l # splitLines rest"
  by (induction l) (auto simp: splitLines_Cons)

lemma splitLines_join:
  "ls \<noteq> [] \<Longrightarrow> \<forall>l \<in> set ls. CHR 0x0D \<notin> set l \<and> CHR 0x0A \<notin> set l \<Longrightarrow>
   splitLines (join [CHR 0x0A] ls) = ls"
proof (induction ls rule: list_nonempty_induct)
  case (single l)
  then show ?case by (simp add: splitLines_bare)
next
  case (cons l ls)
  then obtain w ws where ls: "ls = w # ws" by (cases ls) auto
  from cons.prems have "CHR 0x0D \<notin> set l" "CHR 0x0A \<notin> set l" by auto
  then have "splitLines (l @ CHR 0x0A # join [CHR 0x0A] ls) = l # splitLines (join [CHR 0x0A] ls)"
    by (rule splitLines_line)
  also have "splitLines (join [CHR 0x0A] ls) = ls" using cons.prems by (intro cons.IH) simp
  finally show ?case by (simp add: ls)
qed

lemma join_snoc: "xs \<noteq> [] \<Longrightarrow> join sep (xs @ [x]) = join sep xs @ sep @ x"
proof (induction xs rule: list_nonempty_induct)
  case (single y) show ?case by simp
next
  case (cons y ys)
  then obtain w ws where ys: "ys = w # ws" by (cases ys) auto
  with cons show ?case by simp
qed

lemma join_Cons: "xs \<noteq> [] \<Longrightarrow> join sep (x # xs) = x @ sep @ join sep xs"
  by (cases xs) simp_all

lemma set_join: "set (join sep xs) \<subseteq> set sep \<union> \<Union> (set ` set xs)"
  by (induction sep xs rule: join.induct) auto

lemma set_escapeCsvField: "set (escapeCsvField v) \<subseteq> insert (CHR 0x22) (set v)"
  by (auto simp: escapeCsvField_def split: if_splits)

lemma set_escapeCsvField_ge: "set v \<subseteq> set (escapeCsvField v)"
  by (auto simp: escapeCsvField_def)

lemma trim_id: "s \<noteq> [] \<Longrightarrow> \<not> isWhiteSpace (hd s) \<Longrightarrow> \<not> isWhiteSpace (last s) \<Longrightarrow> trim s = s"
proof -
  assume s: "s \<noteq> []" "\<not> isWhiteSpace (hd s)" "\<not> isWhiteSpace (last s)"
  then have 1: "dropWhile isWhiteSpace s = s" by (cases s) auto
  from s have "rev s \<noteq> []" "\<not> isWhiteSpace (hd (rev s))" by (simp_all add: hd_rev)
  then have "dropWhile isWhiteSpace (rev s) = rev s" by (cases "rev s") auto
  with 1 show ?thesis by (simp add: trim_def)
qed

lemma hd_join: "xs \<noteq> [] \<Longrightarrow> hd xs \<noteq> [] \<Longrightarrow> hd (join sep xs) = hd (hd xs)"
proof -
  assume a: "xs \<noteq> []" "hd xs \<noteq> []"
  then obtain x ys where xs: "xs = x # ys" by (cases xs) auto
  with a show ?thesis by (cases ys) simp_all
qed

lemma last_join:
  "xs \<noteq> [] \<Longrightarrow> last xs \<noteq> [] \<Longrightarrow>
   join sep xs \<noteq> [] \<and> last (join sep xs) = last (last xs)"
proof (induction xs rule: list_nonempty_induct)
  case (single x) then show ?case by simp
next
  case (cons x xs)
  then have "join sep xs \<noteq> [] \<and> last (join sep xs) = last (last xs)" by simp
  with cons.hyps show ?case by (simp add: join_Cons)
qed

lemma makeRow_map:
  "makeRow hs (map f hs @ extra) x =
     (if x \<in> set hs \<and> x \<noteq> ''__proto__'' then Some (f x) else None)"
proof (induction hs arbitrary: extra rule: rev_induct)
  case Nil show ?case by (simp add: makeRow_Nil)
next
  case (snoc h hs)
  have "makeRow hs (map f (hs @ [h]) @ extra) x =
          (if x \<in> set hs \<and> x \<noteq> ''__proto__'' then Some (f x) else None)"
    using snoc[of "f h # extra"] by simp
  moreover have "valueAt (map f (hs @ [h]) @ extra) (length hs) = f h"
    by (simp add: valueAt_eq nth_append)
  ultimately show ?case by (auto simp: makeRow_snoc setProperty_def)
qed

lemma makeRow_cells:
  assumes "dom r = set hs" and "''__proto__'' \<notin> set hs"
  shows "makeRow hs (map (cellText t r) hs) = r"
proof
  fix x
  show "makeRow hs (map (cellText t r) hs) x = r x"
  proof (cases "x \<in> set hs")
    case True
    with assms(1) obtain v where "r x = Some v" by auto
    with True assms(2) show ?thesis
      using makeRow_map[of hs "cellText t r" "[]" x] by (auto simp: cellText_def)
  next
    case False
    with assms(1) have "r x = None" by auto
    with False show ?thesis using makeRow_map[of hs "cellText t r" "[]" x] by simp
  qed
qed

lemma parseLine_csvLine:
  "hs \<noteq> [] \<Longrightarrow> parseLine (csvLine t hs r) = map (cellText t r) hs"
  using parse_join_escaped[of "map (cellText t r) hs" "[]"]
  by (simp add: parseLine_def csvLine_def comp_def)

lemma map_filter_all:
  "\<forall>x \<in> set xs. P x \<Longrightarrow> List.map_filter (\<lambda>x. if \<not> P x then None else Some (g x)) xs = map g xs"
  by (induction xs) (simp_all add: List.map_filter_def)

lemma not_ws_comma: "\<not> isWhiteSpace (CHR '','')" and not_ws_quote: "\<not> isWhiteSpace (CHR 0x22)"
  by (simp_all add: isWhiteSpace_def)

lemma escapeCsvField_Nil_iff: "escapeCsvField v = [] \<longleftrightarrow> v = []"
  by (auto simp: escapeCsvField_def)

lemma last_escapeCsvField:
  "v \<noteq> [] \<Longrightarrow>
   last (escapeCsvField v) =
     (if \<exists>c \<in> set v. c = CHR 0x22 \<or> c = CHR '','' \<or> c = CHR 0x0A then CHR 0x22 else last v)"
  by (simp add: escapeCsvField_def)

lemma csvLine_chars:
  "set (csvLine t headers r) \<subseteq> {CHR '','', CHR 0x22} \<union> (\<Union>h \<in> set headers. set (cellText t r h))"
proof
  fix c assume "c \<in> set (csvLine t headers r)"
  then have "c \<in> set '','' \<union> \<Union> (set ` set (map (\<lambda>h. escapeCsvField (cellText t r h)) headers))"
    using set_join[of "'',''" "map (\<lambda>h. escapeCsvField (cellText t r h)) headers"]
    by (auto simp: csvLine_def)
  then show "c \<in> {CHR '','', CHR 0x22} \<union> (\<Union>h \<in> set headers. set (cellText t r h))"
    using set_escapeCsvField by fastforce
qed

lemma headerLine_first:
  assumes "headers \<noteq> []" and "headers \<noteq> [[]]"
    and "hd headers \<noteq> [] \<longrightarrow> \<not> isWhiteSpace (hd (hd headers))"
  shows "join '','' headers \<noteq> [] \<and> \<not> isWhiteSpace (hd (join '','' headers))"
proof -
  from assms(1) obtain h hs where hs: "headers = h # hs" by (cases headers) auto
  show ?thesis
  proof (cases hs)
    case Nil
    with hs assms show ?thesis by simp
  next
    case (Cons k ks)
    with hs assms(3) show ?thesis by (cases h) (simp_all add: not_ws_comma)
  qed
qed

lemma csvLine_nonblank:
  assumes "headers \<noteq> []"
    and "length headers = 1 \<longrightarrow> (\<exists>c \<in> set (cellText t r (hd headers)). \<not> isWhiteSpace c)"
  shows "trim (csvLine t headers r) \<noteq> []"
proof -
  from assms(1) obtain h hs where hs: "headers = h # hs" by (cases headers) auto
  show ?thesis
  proof (cases hs)
    case Nil
    with hs assms(2) obtain c where c: "c \<in> set (cellText t r h)" "\<not> isWhiteSpace c" by auto
    then have "c \<in> set (escapeCsvField (cellText t r h))" using set_escapeCsvField_ge by auto
    then have "trim (escapeCsvField (cellText t r h)) \<noteq> []" using c(2) by (rule trim_nonempty)
    with hs Nil show ?thesis by (simp add: csvLine_def)
  next
    case (Cons k ks)
    with hs have "CHR '','' \<in> set (csvLine t headers r)" by (simp add: csvLine_def)
    then show ?thesis using not_ws_comma by (rule trim_nonempty)
  qed
qed

lemma csvLine_last:
  assumes "headers \<noteq> []"
    and "length headers = 1 \<longrightarrow> (\<exists>c \<in> set (cellText t r (hd headers)). \<not> isWhiteSpace c)"
    and "CHR 0x0A \<notin> set (cellText t r (last headers))"
    and "cellText t r (last headers) \<noteq> [] \<longrightarrow>
           \<not> isWhiteSpace (last (cellText t r (last headers))) \<or>
           CHR '','' \<in> set (cellText t r (last headers)) \<or>
           CHR 0x22 \<in> set (cellText t r (last headers))"
  shows "csvLine t headers r \<noteq> [] \<and> \<not> isWhiteSpace (last (csvLine t headers r))"
proof -
  define v where "v = cellText t r (last headers)"
  define cells where "cells = map (\<lambda>h. escapeCsvField (cellText t r h)) headers"
  have cells: "cells \<noteq> []" "last cells = escapeCsvField v" "csvLine t headers r = join '','' cells"
    using assms(1) by (simp_all add: cells_def v_def csvLine_def last_map)
  show ?thesis
  proof (cases "v = []")
    case False
    then have ne: "last cells \<noteq> []" by (simp add: cells escapeCsvField_Nil_iff)
    have "\<not> isWhiteSpace (last (escapeCsvField v))"
      using False assms(3,4) by (auto simp: last_escapeCsvField v_def not_ws_quote)
    with last_join[OF cells(1) ne, of "'',''"] show ?thesis by (simp add: cells)
  next
    case True
    obtain hs h where hs: "headers = hs @ [h]" using assms(1) by (metis append_butlast_last_id)
    have "hs \<noteq> []"
    proof
      assume "hs = []"
      with hs assms(2) True show False by (simp add: v_def)
    qed
    then have "map (\<lambda>h. escapeCsvField (cellText t r h)) hs \<noteq> []" by simp
    from join_snoc[OF this, of "'',''" "escapeCsvField (cellText t r h)"] True hs
    have "csvLine t headers r = join '','' (map (\<lambda>h. escapeCsvField (cellText t r h)) hs) @ '',''"
      by (simp add: csvLine_def v_def escapeCsvField_def)
    then show ?thesis by (simp add: not_ws_comma)
  qed
qed

text \<open>
  Claim C2, as amended. Parsing the serialized text returns the headers and the rows when:
  there is a header, and the headers are not the single empty name; no header holds a
  comma, a double quote, a carriage return or a line feed (the header line is written
  unescaped), and none is named \<open>__proto__\<close> (the parser's row gets no such key); the
  first header does not start with a white-space character; there is a
  row; every row has exactly the headers as keys; no value holds a carriage return or a
  line feed (commas and double quotes are allowed); with a single column, every value has
  a character that is not white space (a blank line is skipped); and the last value of the
  last row, when it is written unquoted, does not end with a white-space character (the
  text is trimmed before it is split).
\<close>

theorem parse_serialize_roundtrip:
  assumes nonempty: "headers \<noteq> []" "headers \<noteq> [[]]"
    and hchars: "\<forall>h \<in> set headers. CHR '','' \<notin> set h \<and> CHR 0x22 \<notin> set h \<and>
                   CHR 0x0D \<notin> set h \<and> CHR 0x0A \<notin> set h"
    and noproto: "''__proto__'' \<notin> set headers"
    and hfirst: "hd headers \<noteq> [] \<longrightarrow> \<not> isWhiteSpace (hd (hd headers))"
    and rows: "rows \<noteq> []"
    and keys: "\<forall>r \<in> set rows. dom r = set headers"
    and vchars: "\<forall>r \<in> set rows. \<forall>v \<in> ran r. CHR 0x0D \<notin> set v \<and> CHR 0x0A \<notin> set v"
    and single: "length headers = 1 \<longrightarrow>
                   (\<forall>r \<in> set rows. \<exists>c \<in> set (cellText t r (hd headers)). \<not> isWhiteSpace c)"
    and lastv: "cellText t (last rows) (last headers) \<noteq> [] \<longrightarrow>
                  \<not> isWhiteSpace (last (cellText t (last rows) (last headers))) \<or>
                  CHR '','' \<in> set (cellText t (last rows) (last headers)) \<or>
                  CHR 0x22 \<in> set (cellText t (last rows) (last headers))"
  shows "parseCsv (serializeCsv t headers rows) = Inr (headers, rows)"
proof -
  define hl where "hl = join '','' headers"
  define ls where "ls = map (csvLine t headers) rows"
  define csv where "csv = serializeCsv t headers rows"
  have csv: "csv = join [CHR 0x0A] (hl # ls)"
    by (simp add: csv_def hl_def ls_def serializeCsv_def)
  have ls_ne: "ls \<noteq> []" using rows by (simp add: ls_def)
  \<comment> \<open>no line holds a line break\<close>
  have cell: "CHR 0x0D \<notin> set (cellText t r h) \<and> CHR 0x0A \<notin> set (cellText t r h)"
    if "r \<in> set rows" "h \<in> set headers" for r h
  proof -
    from that keys obtain v where v: "r h = Some v" by (metis domD)
    then have "v \<in> ran r" by (auto simp: ran_def)
    with that(1) vchars v show ?thesis by (simp add: cellText_def)
  qed
  have hl_chars: "CHR 0x0D \<notin> set hl \<and> CHR 0x0A \<notin> set hl"
    using set_join[of "'',''" headers] hchars by (auto simp: hl_def)
  have line_chars: "CHR 0x0D \<notin> set (csvLine t headers r) \<and> CHR 0x0A \<notin> set (csvLine t headers r)"
    if "r \<in> set rows" for r
    using csvLine_chars[of t headers r] cell[OF that] by auto
  have "\<forall>l \<in> set (hl # ls). CHR 0x0D \<notin> set l \<and> CHR 0x0A \<notin> set l"
    using hl_chars line_chars by (auto simp: ls_def)
  then have split: "splitLines csv = hl # ls"
    unfolding csv by (intro splitLines_join) simp_all
  \<comment> \<open>trimming changes nothing\<close>
  have hl_first: "hl \<noteq> [] \<and> \<not> isWhiteSpace (hd hl)"
    unfolding hl_def using nonempty hfirst by (rule headerLine_first)
  have last_row: "last rows \<in> set rows" using rows by simp
  have last_hdr: "last headers \<in> set headers" using nonempty(1) by simp
  have ll: "csvLine t headers (last rows) \<noteq> [] \<and> \<not> isWhiteSpace (last (csvLine t headers (last rows)))"
    using nonempty(1) _ _ lastv
  proof (rule csvLine_last)
    show "length headers = 1 \<longrightarrow>
            (\<exists>c \<in> set (cellText t (last rows) (hd headers)). \<not> isWhiteSpace c)"
      using single last_row by blast
    show "CHR 0x0A \<notin> set (cellText t (last rows) (last headers))"
      using cell[OF last_row last_hdr] by simp
  qed
  have last_ls: "last (hl # ls) = csvLine t headers (last rows)"
    using rows ls_ne by (simp add: ls_def last_map)
  have "csv \<noteq> [] \<and> last csv = last (csvLine t headers (last rows))"
    unfolding csv using last_join[of "hl # ls" "[CHR 0x0A]"] ll last_ls by simp
  moreover have "hd csv = hd hl"
    unfolding csv using hd_join[of "hl # ls" "[CHR 0x0A]"] hl_first by simp
  ultimately have trim: "trim csv = csv"
    using hl_first ll by (intro trim_id) simp_all
  \<comment> \<open>the header line and the data lines parse back\<close>
  have hdrs: "parseLine hl = headers"
    using parse_join_bare[OF nonempty(1), of "[]"] hchars by (simp add: parseLine_def hl_def)
  have row: "makeRow headers (parseLine (csvLine t headers r)) = r" if "r \<in> set rows" for r
    using that keys noproto by (simp add: parseLine_csvLine[OF nonempty(1)] makeRow_cells)
  have nonblank: "\<forall>l \<in> set ls. trim l \<noteq> []"
    using csvLine_nonblank[OF nonempty(1)] single by (auto simp: ls_def)
  have data: "List.map_filter
                (\<lambda>line. if trim line = [] then None else Some (makeRow headers (parseLine line))) ls
              = map (\<lambda>line. makeRow headers (parseLine line)) ls"
    using map_filter_all[of ls "\<lambda>l. trim l \<noteq> []" "\<lambda>line. makeRow headers (parseLine line)"]
      nonblank by simp
  have "map (\<lambda>line. makeRow headers (parseLine line)) ls = rows"
    using row by (simp add: ls_def map_idI)
  with data have data': "List.map_filter
                (\<lambda>line. if trim line = [] then None else Some (makeRow headers (parseLine line))) ls
              = rows" by simp
  have len: "2 \<le> length (splitLines (trim csv))" using ls_ne by (cases ls) (simp_all add: trim split)
  have "parseCsv csv =
          Inr (parseLine hl,
               List.map_filter
                 (\<lambda>line. if trim line = [] then None
                         else Some (makeRow (parseLine hl) (parseLine line))) ls)"
    using parseCsv_Inr[OF len] by (simp only: trim split list.sel)
  then show ?thesis unfolding csv_def by (simp only: hdrs data')
qed

theorem parse_serialize_roundtrip_witness:
  "parseCsv (serializeCsv exampleInheritedText [''id'', ''text'']
       [[''id'' \<mapsto> ''1'', ''text'' \<mapsto> ''He said '' @ [CHR 0x22] @ ''hi'' @ [CHR 0x22] @ '', ok''],
        [''id'' \<mapsto> ''2'', ''text'' \<mapsto> ''fine'']])
     = Inr ([''id'', ''text''],
            [[''id'' \<mapsto> ''1'', ''text'' \<mapsto> ''He said '' @ [CHR 0x22] @ ''hi'' @ [CHR 0x22] @ '', ok''],
             [''id'' \<mapsto> ''2'', ''text'' \<mapsto> ''fine'']]) \<and>
   serializeCsv exampleInheritedText [''id'', ''text'']
       [[''id'' \<mapsto> ''1'', ''text'' \<mapsto> ''He said '' @ [CHR 0x22] @ ''hi'' @ [CHR 0x22] @ '', ok''],
        [''id'' \<mapsto> ''2'', ''text'' \<mapsto> ''fine'']]
     = ''id,text'' @ [CHR 0x0A] @ ''1,'' @ [CHR 0x22] @ ''He said '' @ [CHR 0x22, CHR 0x22] @ ''hi''
         @ [CHR 0x22, CHR 0x22] @ '', ok'' @ [CHR 0x22] @ [CHR 0x0A] @ ''2,fine''"
proof -
  let ?hs = "[''id'', ''text'']"
  let ?r1 = "[''id'' \<mapsto> ''1'', ''text'' \<mapsto> ''He said '' @ [CHR 0x22] @ ''hi'' @ [CHR 0x22] @ '', ok'']"
  let ?r2 = "[''id'' \<mapsto> ''2'', ''text'' \<mapsto> ''fine'']"
  have 1: "?hs \<noteq> []" and 2: "?hs \<noteq> [[]]" by simp_all
  have 3: "\<forall>h \<in> set ?hs. CHR '','' \<notin> set h \<and> CHR 0x22 \<notin> set h \<and>
                   CHR 0x0D \<notin> set h \<and> CHR 0x0A \<notin> set h" by simp
  have 10: "''__proto__'' \<notin> set ?hs" by simp
  have 4: "hd ?hs \<noteq> [] \<longrightarrow> \<not> isWhiteSpace (hd (hd ?hs))" by (simp add: isWhiteSpace_def)
  have 5: "[?r1, ?r2] \<noteq> []" by simp
  have 6: "\<forall>r \<in> set [?r1, ?r2]. dom r = set ?hs" by auto
  have 7: "\<forall>r \<in> set [?r1, ?r2]. \<forall>v \<in> ran r. CHR 0x0D \<notin> set v \<and> CHR 0x0A \<notin> set v"
    by (auto simp: ran_def split: if_splits)
  have 8: "length ?hs = 1 \<longrightarrow>
             (\<forall>r \<in> set [?r1, ?r2]. \<exists>c \<in> set (cellText exampleInheritedText r (hd ?hs)). \<not> isWhiteSpace c)" by simp
  have 9: "cellText exampleInheritedText (last [?r1, ?r2]) (last ?hs) \<noteq> [] \<longrightarrow>
                  \<not> isWhiteSpace (last (cellText exampleInheritedText (last [?r1, ?r2]) (last ?hs))) \<or>
                  CHR '','' \<in> set (cellText exampleInheritedText (last [?r1, ?r2]) (last ?hs)) \<or>
                  CHR 0x22 \<in> set (cellText exampleInheritedText (last [?r1, ?r2]) (last ?hs))"
    by (simp add: cellText_def isWhiteSpace_def)
  have "serializeCsv exampleInheritedText ?hs [?r1, ?r2]
     = ''id,text'' @ [CHR 0x0A] @ ''1,'' @ [CHR 0x22] @ ''He said '' @ [CHR 0x22, CHR 0x22] @ ''hi''
         @ [CHR 0x22, CHR 0x22] @ '', ok'' @ [CHR 0x22] @ [CHR 0x0A] @ ''2,fine''"
    by (simp add: serializeCsv_def csvLine_def cellText_def escapeCsvField_def)
  with parse_serialize_roundtrip[OF 1 2 3 10 4 5 6 7 8 9] show ?thesis by simp
qed

text \<open>
  Claim C2 as stated fails on a value with an embedded line feed: the text is split into
  lines before the quotes are read, so the quoted value comes back as two rows.
\<close>

theorem parse_serialize_newline_counterexample:
  "parseCsv (serializeCsv exampleInheritedText [''text''] [[''text'' \<mapsto> ''one\<newline>two'']])
     = Inr ([''text''], [[''text'' \<mapsto> ''one''], [''text'' \<mapsto> ''two'']]) \<and>
   parseCsv (serializeCsv exampleInheritedText [''text''] [[''text'' \<mapsto> ''one\<newline>two'']])
     \<noteq> Inr ([''text''], [[''text'' \<mapsto> ''one\<newline>two'']])"
  by (simp add: serializeCsv_def csvLine_def cellText_def escapeCsvField_def
        parseCsv_def trim_def isWhiteSpace_def parseLine_def List.map_filter_def
        makeRow_def setProperty_def valueAt_def upt_rec)

section \<open>Properties of the taxonomy store\<close>

lemma hd_sort_least:
  fixes xs :: "'a::linorder list"
  assumes "xs \<noteq> []"
  shows "hd (sort xs) \<in> set xs \<and> (\<forall>x \<in> set xs. hd (sort xs) \<le> x)"
proof -
  from assms have ne: "sort xs \<noteq> []" by (metis length_0_conv length_sort)
  then obtain y ys where ys: "sort xs = y # ys" by (cases "sort xs") auto
  have "sorted (sort xs)" by simp
  then have "sorted (y # ys)" by (simp only: ys)
  then have "\<forall>x \<in> set (y # ys). y \<le> x" by auto
  moreover have "set (sort xs) = set xs" by simp
  then have "set (y # ys) = set xs" by (simp only: ys)
  ultimately show ?thesis by (auto simp: ys)
qed

lemma sort_eq_Nil: "sort xs = [] \<longleftrightarrow> xs = []"
  by (metis length_0_conv length_sort)

lemma keys_delete: "fst ` set (AList.delete k al) = fst ` set al - {k}"
  by (induction al) (auto simp: AList.delete_eq)

text \<open>
  Claim C9. Deleting the active codebook empties the results, the report content and the
  chat history, removes the codebook, and makes active the least remaining codebook name
  in the order \<open>sort()\<close> uses (lexicographic on code units), or the empty string (no
  active codebook) when none remains.
\<close>

theorem handleDeleteCodebook_active_cascade:
  "results (handleDeleteCodebook (activeCodebook st) st) = [] \<and>
   reportContent (handleDeleteCodebook (activeCodebook st) st) = [] \<and>
   chatHistory (handleDeleteCodebook (activeCodebook st) st) = [] \<and>
   fst ` set (codebooks (handleDeleteCodebook (activeCodebook st) st)) =
     fst ` set (codebooks st) - {activeCodebook st} \<and>
   (if fst ` set (codebooks st) - {activeCodebook st} = {}
    then activeCodebook (handleDeleteCodebook (activeCodebook st) st) = []
    else activeCodebook (handleDeleteCodebook (activeCodebook st) st)
           \<in> fst ` set (codebooks st) - {activeCodebook st} \<and>
         (\<forall>k \<in> fst ` set (codebooks st) - {activeCodebook st}.
            activeCodebook (handleDeleteCodebook (activeCodebook st) st) \<le> k))"
proof -
  define new where "new = AList.delete (activeCodebook st) (codebooks st)"
  define st' where "st' = handleDeleteCodebook (activeCodebook st) st"
  define K where "K = fst ` set (codebooks st) - {activeCodebook st}"
  define names where "names = map fst new"
  have keys: "set names = K"
    using keys_delete[of "activeCodebook st" "codebooks st"] by (simp add: names_def new_def K_def)
  have act: "activeCodebook st' = (if names = [] then [] else hd (sort names))"
    by (simp add: st'_def names_def new_def handleDeleteCodebook_def Let_def sort_eq_Nil)
  have basic: "results st' = [] \<and> reportContent st' = [] \<and> chatHistory st' = [] \<and>
     fst ` set (codebooks st') = K"
    using keys by (simp add: st'_def names_def new_def handleDeleteCodebook_def Let_def)
  have "if K = {} then activeCodebook st' = []
        else activeCodebook st' \<in> K \<and> (\<forall>k \<in> K. activeCodebook st' \<le> k)"
  proof (cases "names = []")
    case True
    with keys have "K = {}" by auto
    with True act show ?thesis by simp
  next
    case False
    with keys have "K \<noteq> {}" by auto
    moreover from hd_sort_least[OF False] keys
    have "hd (sort names) \<in> K \<and> (\<forall>k \<in> K. hd (sort names) \<le> k)" by simp
    ultimately show ?thesis using False act by simp
  qed
  with basic show ?thesis unfolding st'_def K_def by simp
qed

theorem handleDeleteCodebook_active_cascade_witness:
  "activeCodebook
     (handleDeleteCodebook ''zeta''
        (initialState\<lparr>codebooks := [(''zeta'', []), (''beta'', []), (''alpha'', [])],
           activeCodebook := ''zeta''\<rparr>)) = ''alpha'' \<and>
   ''alpha'' \<le> ''beta'' \<and>
   activeCodebook
     (handleDeleteCodebook ''zeta''
        (initialState\<lparr>codebooks := [(''zeta'', [])], activeCodebook := ''zeta''\<rparr>)) = []"
  using handleDeleteCodebook_active_cascade
          [of "initialState\<lparr>codebooks := [(''zeta'', []), (''beta'', []), (''alpha'', [])],
                 activeCodebook := ''zeta''\<rparr>"]
        handleDeleteCodebook_active_cascade
          [of "initialState\<lparr>codebooks := [(''zeta'', [])], activeCodebook := ''zeta''\<rparr>"]
  by (simp add: handleDeleteCodebook_def initialState_def AList.delete_eq)

lemma activeThemes_handleAddNewThemes:
  assumes "activeCodebook st \<noteq> []"
  shows "activeThemes (handleAddNewThemes ts st) =
           activeThemes st @
           filter (\<lambda>t. toLowerCase (name t) \<notin> (\<lambda>e. toLowerCase (name e)) ` set (activeThemes st)) ts"
  using assms
  by (simp add: handleAddNewThemes_def handleSetThemes_def activeThemes_def Let_def
        update_conv' split: option.splits)

lemma activeThemes_handleSetThemes:
  "activeThemes (handleSetThemes f st) =
     (if activeCodebook st = [] then activeThemes st else f (activeThemes st))"
  by (simp add: handleSetThemes_def activeThemes_def Let_def update_conv')

lemma activeThemes_codebookError [simp]:
  "activeThemes (st\<lparr>codebookError := e\<rparr>) = activeThemes st"
  by (simp add: activeThemes_def)

lemma uniqueNames_append_new:
  assumes "uniqueNames xs" and "uniqueNames ys"
  shows "uniqueNames (xs @ filter (\<lambda>t. toLowerCase (name t) \<notin> (\<lambda>e. toLowerCase (name e)) ` set xs) ys)"
  using assms by (auto simp: uniqueNames_def distinct_map_filter image_iff)

text \<open>The single add keeps the names of the active codebook distinct in lower case.\<close>

lemma handleAddTheme_keeps_uniqueNames:
  assumes "uniqueNames (activeThemes st)"
  shows "uniqueNames (activeThemes (handleAddTheme newThemeName newThemeDescription st))"
  using assms
  by (auto simp: handleAddTheme_def activeThemes_handleSetThemes uniqueNames_def)

text \<open>So do the two bulk additions when the names of the batch are distinct among themselves.\<close>

lemma handleAddNewThemes_keeps_uniqueNames:
  assumes "uniqueNames (activeThemes st)" and "uniqueNames newThemes"
  shows "uniqueNames (activeThemes (handleAddNewThemes newThemes st))"
proof (cases "activeCodebook st = []")
  case True
  with assms(1) show ?thesis by (simp add: handleAddNewThemes_def)
next
  case False
  then show ?thesis
    using uniqueNames_append_new[OF assms] by (simp add: activeThemes_handleAddNewThemes)
qed

lemma handleFileUpload_keeps_uniqueNames:
  assumes "uniqueNames (activeThemes st)" and "uniqueNames (parseThemes text)"
  shows "uniqueNames (activeThemes (handleFileUpload text st))"
proof -
  have eq: "(\<lambda>newTheme. \<forall>existingTheme \<in> set (activeThemes st).
                toLowerCase (name existingTheme) \<noteq> toLowerCase (name newTheme))
        = (\<lambda>t. toLowerCase (name t) \<notin> (\<lambda>e. toLowerCase (name e)) ` set (activeThemes st))"
    by (auto simp: fun_eq_iff image_iff)
  show ?thesis
    using uniqueNames_append_new[OF assms] assms(1)
    by (simp add: handleFileUpload_def activeThemes_handleSetThemes Let_def eq)
qed

lemma toLowerCase_Support: "toLowerCase ''Support'' = ''support''"
  by code_simp

lemma toLowerCase_support: "toLowerCase ''support'' = ''support''"
  by code_simp

text \<open>
  Claim C3, on the code. From an empty active codebook, which has the invariant, folding in
  the two approved suggestions \<open>Support\<close> and \<open>support\<close> stores both, and so does importing
  a file with these two lines: the new entries are compared with the stored ones only, not
  with each other, and the taxonomy ends with two names that are equal in lower case.
\<close>

theorem batch_with_equal_names_breaks_uniqueNames:
  "(let st = initialState\<lparr>codebooks := [(''cb'', [])], activeCodebook := ''cb''\<rparr>;
        st' = handleAddNewThemes [\<lparr>name = ''Support'', description = ''a''\<rparr>,
                                  \<lparr>name = ''support'', description = ''b''\<rparr>] st;
        st'' = handleFileUpload ''Support,a\<newline>support,b'' st
    in uniqueNames (activeThemes st) \<and>
       activeThemes st' = [\<lparr>name = ''Support'', description = ''a''\<rparr>,
                           \<lparr>name = ''support'', description = ''b''\<rparr>] \<and>
       \<not> uniqueNames (activeThemes st') \<and>
       activeThemes st'' = [\<lparr>name = ''Support'', description = ''a''\<rparr>,
                            \<lparr>name = ''support'', description = ''b''\<rparr>] \<and>
       \<not> uniqueNames (activeThemes st''))"
  by (simp add: initialState_def handleAddNewThemes_def handleFileUpload_def activeThemes_def
      handleSetThemes_def uniqueNames_def toLowerCase_Support toLowerCase_support
      parseThemes_def parseThemeLine_def trim_def isWhiteSpace_def Let_def)

section \<open>Properties of the reconciler\<close>

text \<open>Whenever some uploaded row has the returned text, the row chosen for a record does not depend on the record's index.\<close>

lemma originalDataRow_ignores_index:
  assumes "d \<in> set uploaded" and "d column = Some (originalResponse analysisResult)"
  shows "originalDataRow uploaded column analysisResult i
           = originalDataRow uploaded column analysisResult j"
proof -
  from assms have "find (\<lambda>d. d column = Some (originalResponse analysisResult)) uploaded \<noteq> None"
    by (auto simp: find_None_iff)
  then show ?thesis by (auto simp: originalDataRow_def)
qed

text \<open>
  Claim C1, on the code. Two uploaded rows with the response text \<open>ok\<close> and two returned
  records with \<open>originalResponse\<close> \<open>ok\<close>: \<open>find\<close> returns the first matching row for both
  records, so both results carry the first row and none carries the second.
\<close>

theorem runAnalysis_duplicates_both_get_first_row:
  "map rawData
     (results
        (runAnalysis Replace
           (Decoded
              [\<lparr>originalResponse = ''ok'', themeName = ''Billing'', sentiment = ''Neutral'',
                confidenceScore = 1, reasoning = ''first'', suggestedTheme = None\<rparr>,
               \<lparr>originalResponse = ''ok'', themeName = ''Support'', sentiment = ''Neutral'',
                confidenceScore = 1, reasoning = ''second'', suggestedTheme = None\<rparr>])
           (initialState\<lparr>apiKey := Some ''key'',
              uploadedData := [[''id'' \<mapsto> ''1'', ''response'' \<mapsto> ''ok''],
                               [''id'' \<mapsto> ''2'', ''response'' \<mapsto> ''ok'']],
              dataHeaders := [''id'', ''response''],
              responseColumn := ''response''\<rparr>)))
   = [Some [''id'' \<mapsto> ''1'', ''response'' \<mapsto> ''ok''],
      Some [''id'' \<mapsto> ''1'', ''response'' \<mapsto> ''ok'']]
   \<and> [''id'' \<mapsto> ''1'', ''response'' \<mapsto> ''ok''] \<noteq> [''id'' \<mapsto> ''2'', ''response'' \<mapsto> ''ok'']"
proof -
  have "[''id'' \<mapsto> ''1'', ''response'' \<mapsto> ''ok''] ''id''
        \<noteq> [''id'' \<mapsto> ''2'', ''response'' \<mapsto> ''ok''] ''id''"
    by simp
  then have ne: "[''id'' \<mapsto> ''1'', ''response'' \<mapsto> ''ok'']
                 \<noteq> [''id'' \<mapsto> ''2'', ''response'' \<mapsto> ''ok'']"
    by metis
  show ?thesis
    by (simp add: runAnalysis_def initialState_def ai_def newResults_def newResult_def
        originalDataRow_def isSuggestion_def isRegular_def enumerate_eq_zip upt_rec ne)
qed

text \<open>The records that pass neither filter are those with a suggested name and no description.\<close>

lemma neither_suggestion_nor_regular:
  "\<not> isSuggestion r \<and> \<not> isRegular r \<longleftrightarrow>
   (\<exists>t. CodingResult.suggestedTheme r = Some t \<and> name t \<noteq> [] \<and> description t = [])"
  by (auto simp: isSuggestion_def isRegular_def split: option.splits)

text \<open>
  Claim C4, on the code. A returned record whose suggested theme has a name and an empty
  description passes neither filter: the run ends without error, and the record is in none
  of the results, the pending results and the suggestions.
\<close>

theorem runAnalysis_drops_incomplete_suggestion:
  "(let st = runAnalysis Replace
           (Decoded
              [\<lparr>originalResponse = ''too expensive'', themeName = ''Uncategorized'',
                sentiment = ''Negative'', confidenceScore = 1, reasoning = ''r'',
                suggestedTheme = Some \<lparr>name = ''Pricing'', description = []\<rparr>\<rparr>])
           (initialState\<lparr>apiKey := Some ''key'',
              uploadedData := [[''response'' \<mapsto> ''too expensive'']],
              dataHeaders := [''response''],
              responseColumn := ''response''\<rparr>)
    in results st = [] \<and> pendingResults st = [] \<and> suggestedThemes st = [] \<and>
       error st = None \<and> \<not> isSuggestionModalOpen st)"
  by (simp add: runAnalysis_def initialState_def ai_def newResults_def newResult_def
        originalDataRow_def isSuggestion_def isRegular_def enumerate_eq_zip upt_rec)

text \<open>A failed outcome of the run on typed records leaves the data as it was.\<close>

lemma runAnalysis_outcome_failure_keeps_data:
  assumes "outcome = CallFailed e \<or> outcome = DecodeFailed e \<or> \<not> ai st"
  shows "results (runAnalysis mode outcome st) = results st \<and>
         uploadedData (runAnalysis mode outcome st) = uploadedData st \<and>
         dataHeaders (runAnalysis mode outcome st) = dataHeaders st \<and>
         state.responseColumn (runAnalysis mode outcome st) = state.responseColumn st \<and>
         pendingResults (runAnalysis mode outcome st) = pendingResults st \<and>
         suggestedThemes (runAnalysis mode outcome st) = suggestedThemes st \<and>
         codebooks (runAnalysis mode outcome st) = codebooks st \<and>
         activeCodebook (runAnalysis mode outcome st) = activeCodebook st \<and>
         error (runAnalysis mode outcome st) \<noteq> None"
  using assms by (auto simp: runAnalysis_def Let_def split: ApiOutcome.splits)

subsection \<open>The run on the reply as it arrives\<close>

lemma replyResults_Inr_iff:
  "replyResults v = Inr elements \<longleftrightarrow> getProperty v ''results'' = Some (JArray elements)"
  by (auto simp: replyResults_def getProperty_def split: json.splits option.splits)

lemma replyResults_cases:
  "(\<exists>e. replyResults v = Inl e) \<or> (\<exists>elements. replyResults v = Inr elements)"
  by (cases "replyResults v") auto

lemma isRawSuggestion_rawOf: "isRawSuggestion (rawOf r) = isSuggestion r"
  by (auto simp: isRawSuggestion_def isSuggestion_def rawOf_def truthy_def getProperty_def
        encodeTheme_def split: option.splits)

lemma isRawRegular_rawOf: "isRawRegular (rawOf r) = isRegular r"
  by (auto simp: isRawRegular_def isRegular_def rawOf_def truthy_def getProperty_def
        encodeTheme_def split: option.splits)

lemma rowValueIs_encoded:
  "rowValueIs d column (getProperty (encodeRecord a) ''originalResponse'')
     = (d column = Some (originalResponse a))"
  by (auto simp: rowValueIs_def getProperty_def encodeRecord_def split: option.splits)

lemma newRawResult_encoded:
  "newRawResult uploaded column (i, encodeRecord a) = rawOf (newResult uploaded column (i, a))"
  by (simp add: newRawResult_def newResult_def rawOf_def originalDataRowRaw_def
        originalDataRow_def rowValueIs_encoded)
     (auto simp: getProperty_def encodeRecord_def split: option.splits)

lemma enumerate_map': "enumerate n (map f xs) = map (\<lambda>(i, x). (i, f x)) (enumerate n xs)"
  by (induction xs arbitrary: n) auto

lemma newRawResults_encoded:
  "newRawResults (mapResults rawOf st) (map encodeRecord parsed)
     = Inr (map rawOf (newResults st parsed))"
proof -
  have "JNull \<notin> set (map encodeRecord parsed)" by (auto simp: encodeRecord_def)
  then show ?thesis
    by (simp add: newRawResults_def newResults_def mapResults_def enumerate_map' comp_def
          split_beta newRawResult_encoded[unfolded prod.collapse] case_prod_beta)
qed


lemma filter_map_rawOf:
  "filter isRawSuggestion (map rawOf rs) = map rawOf (filter isSuggestion rs)"
  "filter isRawRegular (map rawOf rs) = map rawOf (filter isRegular rs)"
  by (simp_all add: filter_map comp_def isRawSuggestion_rawOf isRawRegular_rawOf)

lemma ai_mapResults: "ai (mapResults f st) = ai st"
  by (simp add: ai_def mapResults_def)

text \<open>On the replies of the schema's shape, the run on the reply is the run on typed records.\<close>

lemma runAnalysisOnReply_replyOf:
  "runAnalysisOnReply mode (replyOf outcome) (mapResults rawOf st)
     = mapResults rawOf (runAnalysis mode outcome st)"
proof (cases "state.responseColumn st = []")
  case True
  then show ?thesis by (simp add: runAnalysisOnReply_def runAnalysis_def mapResults_def)
next
  case False
  note col = this
  show ?thesis
  proof (cases "ai st")
    case False
    with col show ?thesis
      by (simp add: runAnalysisOnReply_def runAnalysis_def mapResults_def ai_def)
  next
    case True
    note ai = this
    show ?thesis
    proof (cases outcome)
      case (CallFailed e)
      with col ai show ?thesis
        by (simp add: runAnalysisOnReply_def runAnalysis_def replyOf_def ai_mapResults)
           (simp add: mapResults_def)
    next
      case (DecodeFailed e)
      with col ai show ?thesis
        by (simp add: runAnalysisOnReply_def runAnalysis_def replyOf_def ai_mapResults)
           (simp add: mapResults_def)
    next
      case (Decoded parsed)
      have rr: "replyResults (JObject [(''results'', JArray (map encodeRecord parsed))])
                  = Inr (map encodeRecord parsed)"
        by (simp add: replyResults_def getProperty_def)
      from col have col': "state.responseColumn (mapResults rawOf st) \<noteq> []"
        by (simp add: mapResults_def)
      show ?thesis
        using col col' ai Decoded
        by (simp add: runAnalysisOnReply_def runAnalysis_def replyOf_def ai_mapResults rr
              newRawResults_encoded filter_map_rawOf Let_def)
           (simp add: mapResults_def)
    qed
  qed
qed

lemma runAnalysisOnReply_throws:
  assumes "reply = Rejected e \<or> reply = NotJson e \<or> \<not> ai st \<or>
           (reply = Json v \<and>
            (\<forall>elements. getProperty v ''results'' = Some (JArray elements) \<longrightarrow> JNull \<in> set elements))"
  shows "results (runAnalysisOnReply mode reply st) = results st \<and>
         uploadedData (runAnalysisOnReply mode reply st) = uploadedData st \<and>
         dataHeaders (runAnalysisOnReply mode reply st) = dataHeaders st \<and>
         state.responseColumn (runAnalysisOnReply mode reply st) = state.responseColumn st \<and>
         pendingResults (runAnalysisOnReply mode reply st) = pendingResults st \<and>
         suggestedThemes (runAnalysisOnReply mode reply st) = suggestedThemes st \<and>
         codebooks (runAnalysisOnReply mode reply st) = codebooks st \<and>
         activeCodebook (runAnalysisOnReply mode reply st) = activeCodebook st \<and>
         error (runAnalysisOnReply mode reply st) \<noteq> None"
proof -
  have json: "\<exists>msg. (case replyResults v of Inl e \<Rightarrow> Inl e
                      | Inr elements \<Rightarrow> newRawResults st elements) = Inl (Error msg)"
    if "\<forall>elements. getProperty v ''results'' = Some (JArray elements) \<longrightarrow> JNull \<in> set elements"
  proof (cases "replyResults v")
    case (Inl e)
    then show ?thesis by (cases e) simp
  next
    case (Inr elements)
    with that have "JNull \<in> set elements" by (simp add: replyResults_Inr_iff)
    with Inr show ?thesis by (simp add: newRawResults_def)
  qed
  from assms consider "reply = Rejected e" | "reply = NotJson e" | "\<not> ai st"
    | "reply = Json v"
      "\<forall>elements. getProperty v ''results'' = Some (JArray elements) \<longrightarrow> JNull \<in> set elements"
    by blast
  then show ?thesis
  proof cases
    case 1 then show ?thesis by (simp add: runAnalysisOnReply_def Let_def)
  next
    case 2 then show ?thesis by (simp add: runAnalysisOnReply_def Let_def)
  next
    case 3 then show ?thesis by (simp add: runAnalysisOnReply_def Let_def)
  next
    case 4
    from json[OF 4(2)] obtain msg where
      "(case replyResults v of Inl e \<Rightarrow> Inl e
        | Inr elements \<Rightarrow> newRawResults st elements) = Inl (Error msg)" ..
    with 4(1) show ?thesis by (simp add: runAnalysisOnReply_def Let_def)
  qed
qed

lemma runAnalysisOnReply_proceeds:
  assumes "state.responseColumn st \<noteq> []" and "ai st" and "reply = Json v"
    and "getProperty v ''results'' = Some (JArray elements)" and "JNull \<notin> set elements"
  shows "uploadedData (runAnalysisOnReply mode reply st) = [] \<and>
         dataHeaders (runAnalysisOnReply mode reply st) = [] \<and>
         state.responseColumn (runAnalysisOnReply mode reply st) = [] \<and>
         error (runAnalysisOnReply mode reply st) = None \<and>
         results (runAnalysisOnReply mode reply st) =
           (if filter isRawSuggestion
                 (map (newRawResult (uploadedData st) (state.responseColumn st))
                    (enumerate 0 elements)) = []
            then (if mode = Append then results st else []) @
                 filter isRawRegular
                   (map (newRawResult (uploadedData st) (state.responseColumn st))
                      (enumerate 0 elements))
            else results st)"
proof -
  from assms(4) have "replyResults v = Inr elements" by (simp add: replyResults_Inr_iff)
  with assms(1,2,3,5) show ?thesis
    by (simp add: runAnalysisOnReply_def newRawResults_def Let_def)
qed

text \<open>
  Claim C8, as amended. The run is taken on the reply as it arrives. When the call is
  rejected, or the text is not JSON, or the decoded value has no array under \<open>results\<close>,
  or that array holds \<open>null\<close> (the cases in which reading the reply throws), or no API key
  is set, the run leaves the results, the uploaded rows, the headers and the selected
  response column as they were (and the pending results, the suggestions and the
  codebooks too), and reports an error. Every other reply of a run that proceeds, whatever
  the shape of its records, is reconciled without error: the upload, the headers and the
  selected column are cleared, and with no suggestion among the records the results are
  appended to or replaced.
\<close>

theorem runAnalysisOnReply_failure_keeps_data:
  "((reply = Rejected e \<or> reply = NotJson e \<or> \<not> ai st \<or>
     (reply = Json v \<and>
      (\<forall>elements. getProperty v ''results'' = Some (JArray elements) \<longrightarrow> JNull \<in> set elements)))
    \<longrightarrow>
      results (runAnalysisOnReply mode reply st) = results st \<and>
      uploadedData (runAnalysisOnReply mode reply st) = uploadedData st \<and>
      dataHeaders (runAnalysisOnReply mode reply st) = dataHeaders st \<and>
      state.responseColumn (runAnalysisOnReply mode reply st) = state.responseColumn st \<and>
      pendingResults (runAnalysisOnReply mode reply st) = pendingResults st \<and>
      suggestedThemes (runAnalysisOnReply mode reply st) = suggestedThemes st \<and>
      codebooks (runAnalysisOnReply mode reply st) = codebooks st \<and>
      activeCodebook (runAnalysisOnReply mode reply st) = activeCodebook st \<and>
      error (runAnalysisOnReply mode reply st) \<noteq> None) \<and>
   ((state.responseColumn st \<noteq> [] \<and> ai st \<and> reply = Json v \<and>
     getProperty v ''results'' = Some (JArray elements) \<and> JNull \<notin> set elements)
    \<longrightarrow>
      uploadedData (runAnalysisOnReply mode reply st) = [] \<and>
      dataHeaders (runAnalysisOnReply mode reply st) = [] \<and>
      state.responseColumn (runAnalysisOnReply mode reply st) = [] \<and>
      error (runAnalysisOnReply mode reply st) = None \<and>
      results (runAnalysisOnReply mode reply st) =
        (if filter isRawSuggestion
              (map (newRawResult (uploadedData st) (state.responseColumn st))
                 (enumerate 0 elements)) = []
         then (if mode = Append then results st else []) @
              filter isRawRegular
                (map (newRawResult (uploadedData st) (state.responseColumn st))
                   (enumerate 0 elements))
         else results st))"
proof (rule conjI; rule impI)
  assume "reply = Rejected e \<or> reply = NotJson e \<or> \<not> ai st \<or>
     (reply = Json v \<and>
      (\<forall>elements. getProperty v ''results'' = Some (JArray elements) \<longrightarrow> JNull \<in> set elements))"
  then show "results (runAnalysisOnReply mode reply st) = results st \<and>
      uploadedData (runAnalysisOnReply mode reply st) = uploadedData st \<and>
      dataHeaders (runAnalysisOnReply mode reply st) = dataHeaders st \<and>
      state.responseColumn (runAnalysisOnReply mode reply st) = state.responseColumn st \<and>
      pendingResults (runAnalysisOnReply mode reply st) = pendingResults st \<and>
      suggestedThemes (runAnalysisOnReply mode reply st) = suggestedThemes st \<and>
      codebooks (runAnalysisOnReply mode reply st) = codebooks st \<and>
      activeCodebook (runAnalysisOnReply mode reply st) = activeCodebook st \<and>
      error (runAnalysisOnReply mode reply st) \<noteq> None"
    by (rule runAnalysisOnReply_throws)
next
  assume a: "state.responseColumn st \<noteq> [] \<and> ai st \<and> reply = Json v \<and>
     getProperty v ''results'' = Some (JArray elements) \<and> JNull \<notin> set elements"
  then have 1: "state.responseColumn st \<noteq> []" and 2: "ai st" and 3: "reply = Json v"
    and 4: "getProperty v ''results'' = Some (JArray elements)" and 5: "JNull \<notin> set elements"
    by simp_all
  show "uploadedData (runAnalysisOnReply mode reply st) = [] \<and>
      dataHeaders (runAnalysisOnReply mode reply st) = [] \<and>
      state.responseColumn (runAnalysisOnReply mode reply st) = [] \<and>
      error (runAnalysisOnReply mode reply st) = None \<and>
      results (runAnalysisOnReply mode reply st) =
        (if filter isRawSuggestion
              (map (newRawResult (uploadedData st) (state.responseColumn st))
                 (enumerate 0 elements)) = []
         then (if mode = Append then results st else []) @
              filter isRawRegular
                (map (newRawResult (uploadedData st) (state.responseColumn st))
                   (enumerate 0 elements))
         else results st)"
    by (rule runAnalysisOnReply_proceeds[OF 1 2 3 4 5])
qed

theorem runAnalysisOnReply_failure_keeps_data_witness:
  "uploadedData
     (runAnalysisOnReply Append (Json (JObject [(''error'', JString ''quota'')]))
        (exampleUpload [''ok''] initialState))
     = [[''response'' \<mapsto> ''ok'']] \<and>
   error
     (runAnalysisOnReply Append (Json (JObject [(''error'', JString ''quota'')]))
        (exampleUpload [''ok''] initialState))
     = Some (apiError (cannotRead ''undefined'' ''map'')) \<and>
   uploadedData
     (runAnalysisOnReply Append
        (Json (JObject [(''results'', JArray [encodeRecord (exampleRecord ''ok'' None)])]))
        (exampleUpload [''ok''] initialState))
     = []"
proof -
  have throws: "Json (JObject [(''error'', JString ''quota'')]) = Rejected [] \<or>
      Json (JObject [(''error'', JString ''quota'')]) = NotJson [] \<or>
      \<not> ai (exampleUpload [''ok''] (initialState :: RawResult state)) \<or>
      (Json (JObject [(''error'', JString ''quota'')]) = Json (JObject [(''error'', JString ''quota'')]) \<and>
       (\<forall>elements. getProperty (JObject [(''error'', JString ''quota'')]) ''results''
                      = Some (JArray elements) \<longrightarrow> JNull \<in> set elements))"
    by (simp add: getProperty_def)
  have proceeds: "state.responseColumn (exampleUpload [''ok''] (initialState :: RawResult state)) \<noteq> [] \<and>
      ai (exampleUpload [''ok''] (initialState :: RawResult state)) \<and>
      Json (JObject [(''results'', JArray [encodeRecord (exampleRecord ''ok'' None)])])
        = Json (JObject [(''results'', JArray [encodeRecord (exampleRecord ''ok'' None)])]) \<and>
      getProperty (JObject [(''results'', JArray [encodeRecord (exampleRecord ''ok'' None)])]) ''results''
        = Some (JArray [encodeRecord (exampleRecord ''ok'' None)]) \<and>
      JNull \<notin> set [encodeRecord (exampleRecord ''ok'' None)]"
    by (simp add: getProperty_def ai_def initialState_def encodeRecord_def)
  from runAnalysisOnReply_failure_keeps_data
         [where reply = "Json (JObject [(''error'', JString ''quota'')])" and e = "[]"
            and st = "exampleUpload [''ok''] (initialState :: RawResult state)"
            and v = "JObject [(''error'', JString ''quota'')]" and mode = Append]
       throws
  have a: "uploadedData
     (runAnalysisOnReply Append (Json (JObject [(''error'', JString ''quota'')]))
        (exampleUpload [''ok''] (initialState :: RawResult state)))
     = uploadedData (exampleUpload [''ok''] (initialState :: RawResult state))"
    by blast
  from runAnalysisOnReply_failure_keeps_data
         [where reply = "Json (JObject [(''results'', JArray [encodeRecord (exampleRecord ''ok'' None)])])"
            and st = "exampleUpload [''ok''] (initialState :: RawResult state)"
            and v = "JObject [(''results'', JArray [encodeRecord (exampleRecord ''ok'' None)])]"
            and elements = "[encodeRecord (exampleRecord ''ok'' None)]" and mode = Append]
       proceeds
  have b: "uploadedData
     (runAnalysisOnReply Append
        (Json (JObject [(''results'', JArray [encodeRecord (exampleRecord ''ok'' None)])]))
        (exampleUpload [''ok''] (initialState :: RawResult state)))
     = []"
    by blast
  have c: "error
     (runAnalysisOnReply Append (Json (JObject [(''error'', JString ''quota'')]))
        (exampleUpload [''ok''] (initialState :: RawResult state)))
     = Some (apiError (cannotRead ''undefined'' ''map''))"
    by (simp add: runAnalysisOnReply_def ai_def initialState_def replyResults_def getProperty_def)
  from a b c show ?thesis by (simp add: initialState_def)
qed

text \<open>
  Claim C8 as stated fails on a reply that has not the expected shape and yet is read
  without error: for \<open>{"results":[{}]}\<close> in replace mode the former result is overwritten
  by a record whose fields are \<open>undefined\<close>, and the upload is cleared.
\<close>

theorem wrong_shape_reply_overwrites_results:
  "results
     (runAnalysisOnReply Replace (Json (JObject [(''results'', JArray [JObject []])]))
        (exampleUpload [''ok'']
           (initialState\<lparr>results := [rawOf (exampleResult ''old'' None)]\<rparr>)))
     = [\<lparr>RawResult.themeName = None, sentiment = None, confidenceScore = None,
         reasoning = None, responseColumn = ''response'', suggestedTheme = None,
         rawData = Some [''response'' \<mapsto> ''ok'']\<rparr>] \<and>
   [\<lparr>RawResult.themeName = None, sentiment = None, confidenceScore = None,
     reasoning = None, responseColumn = ''response'', suggestedTheme = None,
     rawData = Some [''response'' \<mapsto> ''ok'']\<rparr>] \<noteq> [rawOf (exampleResult ''old'' None)] \<and>
   uploadedData
     (runAnalysisOnReply Replace (Json (JObject [(''results'', JArray [JObject []])]))
        (exampleUpload [''ok'']
           (initialState\<lparr>results := [rawOf (exampleResult ''old'' None)]\<rparr>)))
     = [] \<and>
   error
     (runAnalysisOnReply Replace (Json (JObject [(''results'', JArray [JObject []])]))
        (exampleUpload [''ok'']
           (initialState\<lparr>results := [rawOf (exampleResult ''old'' None)]\<rparr>)))
     = None"
  by (simp add: runAnalysisOnReply_def ai_def initialState_def replyResults_def getProperty_def
        newRawResults_def newRawResult_def originalDataRowRaw_def rowValueIs_def
        isRawSuggestion_def isRawRegular_def enumerate_eq_zip upt_rec rawOf_def)

section \<open>Properties of the merge and of the suggestion approval\<close>

lemma handleAddNewThemes_keeps:
  "results (handleAddNewThemes ts st) = results st \<and>
   pendingResults (handleAddNewThemes ts st) = pendingResults st \<and>
   analysisMode (handleAddNewThemes ts st) = analysisMode st \<and>
   activeCodebook (handleAddNewThemes ts st) = activeCodebook st"
  by (simp add: handleAddNewThemes_def handleSetThemes_def Let_def)

lemma results_handleSuggestionsComplete:
  "results (handleSuggestionsComplete processed ts st) =
     (if analysisMode st = Some Append then results st @ pendingResults st @ processed
      else pendingResults st @ processed)"
  by (simp add: handleSuggestionsComplete_def Let_def handleAddNewThemes_keeps)

lemma runAnalysis_Decoded_no_suggestions:
  assumes "state.responseColumn st \<noteq> []" and "ai st"
    and "filter isSuggestion (newResults st parsed) = []"
  shows "results (runAnalysis mode (Decoded parsed) st) =
           (if mode = Append then results st @ filter isRegular (newResults st parsed)
            else filter isRegular (newResults st parsed))"
  using assms by (simp add: runAnalysis_def Let_def)

lemma runAnalysis_Decoded_suggestions:
  assumes "state.responseColumn st \<noteq> []" and "ai st"
    and "filter isSuggestion (newResults st parsed) \<noteq> []"
  shows "results (runAnalysis mode (Decoded parsed) st) = results st \<and>
         pendingResults (runAnalysis mode (Decoded parsed) st) = filter isRegular (newResults st parsed) \<and>
         suggestedThemes (runAnalysis mode (Decoded parsed) st) = filter isSuggestion (newResults st parsed) \<and>
         analysisMode (runAnalysis mode (Decoded parsed) st) = Some mode \<and>
         isSuggestionModalOpen (runAnalysis mode (Decoded parsed) st)"
  using assms by (simp add: runAnalysis_def Let_def)

text \<open>
  Claim C5. A run that proceeds (a response column is selected and the API key is set)
  and whose batch holds no suggestion sets the results, in append mode, to the former
  results followed by the new ones (so the length is the sum and the former entries are
  the unchanged prefix), and in replace mode to the new ones alone. A run whose batch
  holds suggestions leaves the results as they are and records its mode; when the approval
  completes, whatever was approved, the pending results followed by the processed
  suggestions are merged in that recorded mode.
\<close>

theorem append_replace_merge:
  assumes "state.responseColumn st \<noteq> []" and "ai st"
  shows "(filter isSuggestion (newResults st parsed) = [] \<longrightarrow>
            results (runAnalysis Append (Decoded parsed) st)
              = results st @ filter isRegular (newResults st parsed) \<and>
            length (results (runAnalysis Append (Decoded parsed) st))
              = length (results st) + length (filter isRegular (newResults st parsed)) \<and>
            results (runAnalysis Replace (Decoded parsed) st)
              = filter isRegular (newResults st parsed)) \<and>
         (filter isSuggestion (newResults st parsed) \<noteq> [] \<longrightarrow>
            results (runAnalysis mode (Decoded parsed) st) = results st \<and>
            analysisMode (runAnalysis mode (Decoded parsed) st) = Some mode \<and>
            results (handleSuggestionsComplete processed themes
                       (runAnalysis mode (Decoded parsed) st))
              = (if mode = Append
                 then results st @ filter isRegular (newResults st parsed) @ processed
                 else filter isRegular (newResults st parsed) @ processed) \<and>
            results (handleFinish approvals (runAnalysis mode (Decoded parsed) st))
              = (if mode = Append then results st else [])
                  @ filter isRegular (newResults st parsed)
                  @ snd (fold finishStep approvals ([], [])))"
proof (cases "filter isSuggestion (newResults st parsed) = []")
  case True
  with runAnalysis_Decoded_no_suggestions[OF assms True, of Append]
       runAnalysis_Decoded_no_suggestions[OF assms True, of Replace]
  show ?thesis by simp
next
  case False
  note r = runAnalysis_Decoded_suggestions[OF assms False]
  from False show ?thesis
    by (simp add: r results_handleSuggestionsComplete handleFinish_def split_beta Let_def)
qed


theorem append_replace_merge_witness:
  "length (results (runAnalysis Append
             (Decoded [exampleRecord ''a'' None, exampleRecord ''b'' None, exampleRecord ''c'' None])
             (exampleUpload [''a'', ''b'', ''c'']
                (initialState\<lparr>results := replicate 5 (exampleResult ''old'' None)\<rparr>)))) = 8 \<and>
   take 5 (results (runAnalysis Append
             (Decoded [exampleRecord ''a'' None, exampleRecord ''b'' None, exampleRecord ''c'' None])
             (exampleUpload [''a'', ''b'', ''c'']
                (initialState\<lparr>results := replicate 5 (exampleResult ''old'' None)\<rparr>))))
     = replicate 5 (exampleResult ''old'' None) \<and>
   length (results (runAnalysis Replace
             (Decoded [exampleRecord ''a'' None, exampleRecord ''b'' None, exampleRecord ''c'' None])
             (exampleUpload [''a'', ''b'', ''c'']
                (initialState\<lparr>results := replicate 5 (exampleResult ''old'' None)\<rparr>)))) = 3 \<and>
   length (results (handleSuggestionsComplete [exampleResult ''b'' None] []
             (runAnalysis Append
                (Decoded [exampleRecord ''a'' None,
                          exampleRecord ''b'' (Some \<lparr>name = ''Pricing'', description = ''cost''\<rparr>)])
                (exampleUpload [''a'', ''b'']
                   (initialState\<lparr>results := replicate 5 (exampleResult ''old'' None)\<rparr>))))) = 7"
proof -
  let ?st3 = "exampleUpload [''a'', ''b'', ''c'']
                (initialState\<lparr>results := replicate 5 (exampleResult ''old'' None)\<rparr>)"
  let ?st2 = "exampleUpload [''a'', ''b'']
                (initialState\<lparr>results := replicate 5 (exampleResult ''old'' None)\<rparr>)"
  let ?recs3 = "[exampleRecord ''a'' None, exampleRecord ''b'' None, exampleRecord ''c'' None]"
  let ?recs2 = "[exampleRecord ''a'' None,
                 exampleRecord ''b'' (Some \<lparr>name = ''Pricing'', description = ''cost''\<rparr>)]"
  have c3: "state.responseColumn ?st3 \<noteq> []" and a3: "ai ?st3"
    and c2: "state.responseColumn ?st2 \<noteq> []" and a2: "ai ?st2"
    by (simp_all add: ai_def initialState_def)
  have n3: "filter isSuggestion (newResults ?st3 ?recs3) = []"
    and r3: "length (filter isRegular (newResults ?st3 ?recs3)) = 3"
    by (simp_all add: newResults_def newResult_def isSuggestion_def isRegular_def
          enumerate_eq_zip upt_rec)
  have n2: "filter isSuggestion (newResults ?st2 ?recs2) \<noteq> []"
    and r2: "length (filter isRegular (newResults ?st2 ?recs2)) = 1"
    by (simp_all add: newResults_def newResult_def isSuggestion_def isRegular_def
          enumerate_eq_zip upt_rec)
  have res3: "results ?st3 = replicate 5 (exampleResult ''old'' None)"
    and res2: "length (results ?st2) = 5"
    by (simp_all add: initialState_def)
  from append_replace_merge[OF c3 a3, of ?recs3] n3 r3 res3
  have "length (results (runAnalysis Append (Decoded ?recs3) ?st3)) = 8 \<and>
        take 5 (results (runAnalysis Append (Decoded ?recs3) ?st3))
          = replicate 5 (exampleResult ''old'' None) \<and>
        length (results (runAnalysis Replace (Decoded ?recs3) ?st3)) = 3"
    by simp
  moreover
  from append_replace_merge[OF c2 a2, of ?recs2 Append "[exampleResult ''b'' None]" "[]"] n2 r2 res2
  have "length (results (handleSuggestionsComplete [exampleResult ''b'' None] []
             (runAnalysis Append (Decoded ?recs2) ?st2))) = 7"
    by simp
  ultimately show ?thesis by blast
qed

lemma fold_finishStep:
  "fold finishStep ps (ts, rs) =
     (ts @ map newThemeOf (filter accepted ps),
      rs @ map (\<lambda>s. (coreResult s)\<lparr>CodingResult.themeName :=
                        (if accepted s then trim (editedName s) else ''Uncategorized'')\<rparr>) ps)"
  by (induction ps arbitrary: ts rs) (simp_all add: finishStep_def newThemeOf_def Let_def)

lemma handleSuggestionsComplete_fields:
  "activeThemes (handleSuggestionsComplete processed ts st) = activeThemes (handleAddNewThemes ts st) \<and>
   pendingResults (handleSuggestionsComplete processed ts st) = [] \<and>
   suggestedThemes (handleSuggestionsComplete processed ts st) = [] \<and>
   analysisMode (handleSuggestionsComplete processed ts st) = None \<and>
   \<not> isSuggestionModalOpen (handleSuggestionsComplete processed ts st)"
  by (simp add: handleSuggestionsComplete_def Let_def activeThemes_def)

lemma codebooks_handleSuggestionsComplete:
  "codebooks (handleSuggestionsComplete processed ts st) = codebooks (handleAddNewThemes ts st)"
  by (simp add: handleSuggestionsComplete_def Let_def)

text \<open>
  Claim C6, as amended. Finishing the approval gives each accepted record (approved, name
  and description not blank after trimming) the trimmed edited name as its theme name and
  every other record \<open>Uncategorized\<close>, and merges all results of the batch at once, after
  the pending results, in the recorded mode. With an active codebook it appends to that
  codebook the themes of the accepted records, in order, leaving out those whose
  lower-case name is already the lower-case name of a stored theme; when no accepted name
  is taken this is one new theme per accepted record. With no active codebook the
  codebooks stay as they are. Names that were distinct in lower case stay so when the
  names accepted in the batch are distinct among themselves.
\<close>

theorem handleFinish_merges_batch:
  "results (handleFinish ps st) =
     (if analysisMode st = Some Append then results st else []) @ pendingResults st @
     map (\<lambda>s. (coreResult s)\<lparr>CodingResult.themeName :=
                  (if accepted s then trim (editedName s) else ''Uncategorized'')\<rparr>) ps \<and>
   pendingResults (handleFinish ps st) = [] \<and>
   suggestedThemes (handleFinish ps st) = [] \<and>
   (activeCodebook st \<noteq> [] \<longrightarrow>
      activeThemes (handleFinish ps st) =
        activeThemes st @
        filter (\<lambda>t. toLowerCase (name t) \<notin> (\<lambda>e. toLowerCase (name e)) ` set (activeThemes st))
          (map newThemeOf (filter accepted ps)) \<and>
      ((\<forall>s \<in> set ps. accepted s \<longrightarrow>
           toLowerCase (trim (editedName s))
             \<notin> (\<lambda>e. toLowerCase (name e)) ` set (activeThemes st)) \<longrightarrow>
         activeThemes (handleFinish ps st) = activeThemes st @ map newThemeOf (filter accepted ps) \<and>
         length (activeThemes (handleFinish ps st))
           = length (activeThemes st) + length (filter accepted ps))) \<and>
   (activeCodebook st = [] \<longrightarrow> codebooks (handleFinish ps st) = codebooks st) \<and>
   (uniqueNames (activeThemes st) \<and> uniqueNames (map newThemeOf (filter accepted ps)) \<longrightarrow>
      uniqueNames (activeThemes (handleFinish ps st)))"
proof -
  have hf: "handleFinish ps st =
      handleSuggestionsComplete
        (map (\<lambda>s. (coreResult s)\<lparr>CodingResult.themeName :=
                        (if accepted s then trim (editedName s) else ''Uncategorized'')\<rparr>) ps)
        (map newThemeOf (filter accepted ps)) st"
    using fold_finishStep[of ps "[]" "[]"] by (simp add: handleFinish_def)
  have a: "activeThemes (handleFinish ps st) =
           activeThemes st @
           filter (\<lambda>t. toLowerCase (name t) \<notin> (\<lambda>e. toLowerCase (name e)) ` set (activeThemes st))
             (map newThemeOf (filter accepted ps))"
    if "activeCodebook st \<noteq> []"
    by (simp only: hf handleSuggestionsComplete_fields activeThemes_handleAddNewThemes[OF that])
  have b: "(\<forall>s \<in> set ps. accepted s \<longrightarrow>
              toLowerCase (trim (editedName s))
                \<notin> (\<lambda>e. toLowerCase (name e)) ` set (activeThemes st)) \<Longrightarrow>
           filter (\<lambda>t. toLowerCase (name t) \<notin> (\<lambda>e. toLowerCase (name e)) ` set (activeThemes st))
             (map newThemeOf (filter accepted ps)) = map newThemeOf (filter accepted ps)"
    by (rule filter_True) (auto simp: newThemeOf_def)
  have c: "results (handleFinish ps st) =
           (if analysisMode st = Some Append then results st else []) @ pendingResults st @
           map (\<lambda>s. (coreResult s)\<lparr>CodingResult.themeName :=
                        (if accepted s then trim (editedName s) else ''Uncategorized'')\<rparr>) ps"
    by (simp add: hf results_handleSuggestionsComplete)
  have d: "pendingResults (handleFinish ps st) = [] \<and> suggestedThemes (handleFinish ps st) = []"
    by (simp only: hf handleSuggestionsComplete_fields)
  have e: "uniqueNames (activeThemes (handleFinish ps st))"
    if "uniqueNames (activeThemes st)" "uniqueNames (map newThemeOf (filter accepted ps))"
    using handleAddNewThemes_keeps_uniqueNames[OF that]
    by (simp only: hf handleSuggestionsComplete_fields)
  have f: "codebooks (handleFinish ps st) = codebooks st" if "activeCodebook st = []"
    using that by (simp add: hf codebooks_handleSuggestionsComplete handleAddNewThemes_def)
  from a b c d e f show ?thesis by simp
qed

theorem handleFinish_merges_batch_witness:
  "(case seedSuggestions
           [exampleResult ''a'' (Some \<lparr>name = ''Pricing'', description = ''cost''\<rparr>),
            exampleResult ''b'' (Some \<lparr>name = ''Speed'', description = ''slow''\<rparr>),
            exampleResult ''c'' (Some \<lparr>name = ''Colour'', description = ''look''\<rparr>)] of
      None \<Rightarrow> False
    | Some seeded \<Rightarrow>
        activeThemes
          (handleFinish (handleToggleApproval 2 seeded) (exampleCodebook [] initialState))
          = [\<lparr>name = ''Pricing'', description = ''cost''\<rparr>,
             \<lparr>name = ''Speed'', description = ''slow''\<rparr>] \<and>
        map CodingResult.themeName
          (results
             (handleFinish (handleToggleApproval 2 seeded) (exampleCodebook [] initialState)))
          = [''Pricing'', ''Speed'', ''Uncategorized''])"
proof -
  let ?ps = "handleToggleApproval 2
               (the (seedSuggestions
                  [exampleResult ''a'' (Some \<lparr>name = ''Pricing'', description = ''cost''\<rparr>),
                   exampleResult ''b'' (Some \<lparr>name = ''Speed'', description = ''slow''\<rparr>),
                   exampleResult ''c'' (Some \<lparr>name = ''Colour'', description = ''look''\<rparr>)]))"
  have active: "activeCodebook (exampleCodebook [] initialState) \<noteq> []" by simp
  have lower: "toLowerCase ''Pricing'' = ''pricing''" "toLowerCase ''Speed'' = ''speed''"
    by code_simp+
  have distinct: "uniqueNames (map newThemeOf (filter accepted ?ps))"
    by (simp add: seedSuggestions_def seedSuggestion_def handleToggleApproval_def
          enumerate_eq_zip upt_rec CodingResult.defs SuggestedThemeWithStatus.defs
          accepted_def trim_def isWhiteSpace_def newThemeOf_def uniqueNames_def lower)
  from handleFinish_merges_batch[of ?ps "exampleCodebook [] initialState"] active distinct
  show ?thesis
    by (simp add: seedSuggestions_def seedSuggestion_def handleToggleApproval_def
          enumerate_eq_zip upt_rec CodingResult.defs SuggestedThemeWithStatus.defs
          accepted_def trim_def isWhiteSpace_def newThemeOf_def coreResult_def
          activeThemes_def initialState_def)
qed

text \<open>
  Claim C6 as stated fails: an approved suggestion named \<open>support\<close>, with a description,
  adds no theme to a codebook that already holds \<open>Support\<close>, and its result still takes
  the name \<open>support\<close>.
\<close>

theorem approved_suggestion_with_taken_name_adds_no_category:
  "(case seedSuggestions
           [exampleResult ''need help''
              (Some \<lparr>name = ''support'', description = ''asks for help''\<rparr>)] of
      None \<Rightarrow> False
    | Some seeded \<Rightarrow>
        list_all accepted seeded \<and>
        activeThemes
          (handleFinish seeded
             (exampleCodebook [\<lparr>name = ''Support'', description = ''help''\<rparr>] initialState))
          = [\<lparr>name = ''Support'', description = ''help''\<rparr>] \<and>
        map CodingResult.themeName
          (results
             (handleFinish seeded
                (exampleCodebook [\<lparr>name = ''Support'', description = ''help''\<rparr>] initialState)))
          = [''support''])"
  by (simp add: seedSuggestions_def seedSuggestion_def CodingResult.defs
        SuggestedThemeWithStatus.defs accepted_def trim_def isWhiteSpace_def handleFinish_def
        finishStep_def newThemeOf_def coreResult_def handleSuggestionsComplete_def
        handleAddNewThemes_def handleSetThemes_def activeThemes_def initialState_def
        toLowerCase_Support toLowerCase_support Let_def)

text \<open>The seeding never fails on the suggestions a run hands over.\<close>

lemma seedSuggestions_defined:
  "list_all isSuggestion suggestions \<Longrightarrow> seedSuggestions suggestions \<noteq> None"
  by (induction suggestions)
     (auto simp: seedSuggestions_def seedSuggestion_def isSuggestion_def split: option.splits)

end
